theory Spec2Isabelle
  imports Complex_Main
begin

section \<open>starfish.util.exec: building and running command lines\<close>

text \<open>
  Exceptions of the Python code are values. \<open>IndexError\<close> is what \<open>cmdline[0]\<close> raises on
  an empty list; \<open>TypeError\<close> is what \<open>" ".join\<close> raises on an item that is not a
  string; \<open>FileExistsError\<close>, \<open>FileNotFoundError\<close> and \<open>PermissionError\<close> are raised
  by the directory operations; \<open>Raised\<close> stands for whatever a caller-supplied callable or an executed
  command raises (for a command, \<open>subprocess.CalledProcessError\<close>).
\<close>

datatype exn =
  IndexError | TypeError | FileExistsError | FileNotFoundError | PermissionError | Raised string

text \<open>
  An element of a stage is \<open>Union[str, Callable]\<close>. A callable is invoked as
  \<open>element(tempdir=tempdir)\<close>; it returns a string or raises.
\<close>

datatype element = Str string | Callable "string \<Rightarrow> exn + string"

text \<open>\<open>element(tempdir=tempdir) if callable(element) else element\<close>\<close>

fun eval_element :: "string \<Rightarrow> element \<Rightarrow> exn + string" where
  "eval_element tempdir (Callable f) = f tempdir"
| "eval_element tempdir (Str s) = Inr s"

text \<open>
  The list comprehension of \<open>prepare_stage\<close>: the elements are evaluated from left to
  right and the first exception ends the comprehension.
\<close>

fun build_cmdline :: "string \<Rightarrow> element list \<Rightarrow> exn + string list" where
  "build_cmdline tempdir [] = Inr []"
| "build_cmdline tempdir (e # es) =
     (case eval_element tempdir e of
        Inl x \<Rightarrow> Inl x
      | Inr s \<Rightarrow>
          (case build_cmdline tempdir es of
             Inl x \<Rightarrow> Inl x
           | Inr ss \<Rightarrow> Inr (s # ss)))"

definition coverage_starfish :: "string list" where
  "coverage_starfish =
     [''coverage'', ''run'', ''-p'', ''--source'', ''starfish'', ''-m'', ''starfish'']"

definition coverage_validate_sptx :: "string list" where
  "coverage_validate_sptx =
     [''coverage'', ''run'', ''-p'', ''--source'', ''validate_sptx'', ''-m'', ''validate_sptx'']"

text \<open>
  \<open>os.environ\<close> is a map from names to values; \<open>"STARFISH_COVERAGE" in os.environ\<close> asks
  whether the name is bound. \<open>cmdline[0]\<close> raises \<open>IndexError\<close> on the empty list, and
  \<open>cmdline[1:]\<close> is the tail.
\<close>

definition prepare_stage :: "(string \<rightharpoonup> string) \<Rightarrow> element list \<Rightarrow> string \<Rightarrow> exn + string list" where
  "prepare_stage environ stage tempdir =
     (let coverage_enabled = (environ ''STARFISH_COVERAGE'' \<noteq> None) in
      case build_cmdline tempdir stage of
        Inl x \<Rightarrow> Inl x
      | Inr cmdline \<Rightarrow>
          (case cmdline of
             [] \<Rightarrow> Inl IndexError
           | c0 # rest \<Rightarrow>
               if c0 = ''starfish'' \<and> coverage_enabled then Inr (coverage_starfish @ rest)
               else if c0 = ''validate-sptx'' \<and> coverage_enabled
               then Inr (coverage_validate_sptx @ rest)
               else Inr cmdline))"

text \<open>
  What an element contributes to the command line: a string element itself, a callable
  element its result on \<open>tempdir\<close>.
\<close>

fun yields :: "string \<Rightarrow> element \<Rightarrow> string \<Rightarrow> bool" where
  "yields tempdir (Str s) r = (r = s)"
| "yields tempdir (Callable f) r = (f tempdir = Inr r)"

subsection \<open>stages\<close>

text \<open>
  The calls \<open>stages\<close> makes into the operating system, in the order it makes them, each
  with the way it ended: \<open>None\<close> for a normal return, \<open>Some x\<close> for the exception
  \<open>x\<close>. \<open>Mkdtemp\<close> carries the directory it created, if it created one.
\<close>

datatype event =
    Mkdtemp "string option"
  | Makedirs string "exn option"
  | CheckCall "string list" "exn option"
  | Rmtree string "exn option"

text \<open>
  The state \<open>stages\<close> works on: the file system, whatever it is made of, and the calls
  made so far (oldest first).
\<close>

record 'fs world =
  fs :: 'fs
  calls :: "event list"

text \<open>
  The local function \<open>callback\<close> of \<open>stages\<close> prints \<open>" ".join(stage[:2])\<close> and the
  interval. Printing leaves the state alone; the join raises \<open>TypeError\<close> when one of
  the first two elements of the stage is a callable. The outcome does not depend on the
  interval.
\<close>

fun is_callable :: "element \<Rightarrow> bool" where
  "is_callable (Callable f) = True"
| "is_callable (Str s) = False"

definition callback :: "element list \<Rightarrow> exn option" where
  "callback stage = (if \<exists>e \<in> set (take 2 stage). is_callable e then Some TypeError else None)"

text \<open>
  What \<open>stages\<close> calls and does not define: the operating system and the standard
  library, over a file system of any kind. Each call takes the file system and returns
  the exception it raises, if any, with the file system it leaves; nothing is assumed
  about what a call does or when it fails.
  \<^item> \<open>environ\<close> is \<open>os.environ\<close>;
  \<^item> \<open>mkdtemp\<close> is \<open>tempfile.mkdtemp()\<close>, which returns the directory it created;
  \<^item> \<open>makedirs p\<close> is \<open>os.makedirs(p)\<close>;
  \<^item> \<open>check_call cmdline\<close> is \<open>subprocess.check_call(cmdline)\<close>;
  \<^item> \<open>timeit cb body\<close> is the block \<open>with clock.timeit(callback): body\<close>, given the
    outcome \<open>cb\<close> the callback has when it is invoked (the module
    \<open>starfish.util.clock\<close> is not among the sources);
  \<^item> \<open>rmtree p\<close> is \<open>shutil.rmtree(p)\<close>;
  \<^item> \<open>isdir\<close> is \<open>os.path.isdir\<close>, used to state what a call leaves behind.
\<close>

record 'fs os =
  environ :: "string \<rightharpoonup> string"
  mkdtemp :: "'fs \<Rightarrow> (exn + string) \<times> 'fs"
  makedirs :: "string \<Rightarrow> 'fs \<Rightarrow> exn option \<times> 'fs"
  check_call :: "string list \<Rightarrow> 'fs \<Rightarrow> exn option \<times> 'fs"
  timeit :: "exn option \<Rightarrow> ('fs \<Rightarrow> exn option \<times> 'fs) \<Rightarrow> 'fs \<Rightarrow> exn option \<times> 'fs"
  rmtree :: "string \<Rightarrow> 'fs \<Rightarrow> exn option \<times> 'fs"
  isdir :: "'fs \<Rightarrow> string \<Rightarrow> bool"

text \<open>\<open>os.path.join(a, b)\<close> on POSIX: an absolute \<open>b\<close> replaces \<open>a\<close>.\<close>

definition path_join :: "string \<Rightarrow> string \<Rightarrow> string" where
  "path_join a b =
     (if take 1 b = ''/'' then b
      else if a = [] \<or> last a = CHR ''/'' then a @ b
      else a @ ''/'' @ b)"

text \<open>The loop \<open>for subdir in subdirs: os.makedirs(os.path.join(tempdir, subdir))\<close>.\<close>

fun make_subdirs :: "'fs os \<Rightarrow> string \<Rightarrow> string list \<Rightarrow> 'fs world \<Rightarrow> exn option \<times> 'fs world" where
  "make_subdirs os tempdir [] w = (None, w)"
| "make_subdirs os tempdir (subdir # rest) w =
     (let p = path_join tempdir subdir in
      case makedirs os p (fs w) of
        (r, f) \<Rightarrow>
          (let w' = \<lparr>fs = f, calls = calls w @ [Makedirs p r]\<rparr>
           in case r of
                Some x \<Rightarrow> (Some x, w')
              | None \<Rightarrow> make_subdirs os tempdir rest w'))"

text \<open>
  The loop \<open>for stage in commands\<close>: the command line is prepared, then the command
  runs in the timed block. The first exception ends the loop.
\<close>

fun run_commands ::
  "'fs os \<Rightarrow> string \<Rightarrow> element list list \<Rightarrow> 'fs world \<Rightarrow> exn option \<times> 'fs world" where
  "run_commands os tempdir [] w = (None, w)"
| "run_commands os tempdir (stage # rest) w =
     (case prepare_stage (environ os) stage tempdir of
        Inl x \<Rightarrow> (Some x, w)
      | Inr cmdline \<Rightarrow>
          (case timeit os (callback stage) (check_call os cmdline) (fs w) of
             (r, f) \<Rightarrow>
               (let w' = \<lparr>fs = f, calls = calls w @ [CheckCall cmdline r]\<rparr>
                in case r of
                     Some x \<Rightarrow> (Some x, w')
                   | None \<Rightarrow> run_commands os tempdir rest w')))"

text \<open>
  The body of the \<open>try\<close>. \<open>if subdirs:\<close> is false for \<open>None\<close> and for the empty
  sequence.
\<close>

definition try_body ::
  "'fs os \<Rightarrow> string \<Rightarrow> element list list \<Rightarrow> string list option \<Rightarrow> 'fs world
     \<Rightarrow> exn option \<times> 'fs world" where
  "try_body os tempdir commands subdirs w =
     (case (if subdirs \<noteq> None \<and> subdirs \<noteq> Some []
            then make_subdirs os tempdir (the subdirs) w
            else (None, w)) of
        (Some x, w') \<Rightarrow> (Some x, w')
      | (None, w') \<Rightarrow> run_commands os tempdir commands w')"

text \<open>
  \<open>stages\<close>, started on the file system \<open>f0\<close>. The result is the exception \<open>stages\<close>
  leaves with (\<open>None\<close> when it returns normally) and the final state. An exception of
  \<open>tempfile.mkdtemp()\<close> leaves \<open>stages\<close> before the \<open>try\<close>. In the \<open>finally\<close> clause
  an exception of \<open>shutil.rmtree\<close> replaces the pending one; otherwise the pending one
  propagates.
\<close>

definition stages ::
  "'fs os \<Rightarrow> element list list \<Rightarrow> string list option \<Rightarrow> bool \<Rightarrow> 'fs
     \<Rightarrow> exn option \<times> 'fs world" where
  "stages os commands subdirs keep_data f0 =
     (case mkdtemp os f0 of
        (Inl x, f1) \<Rightarrow> (Some x, \<lparr>fs = f1, calls = [Mkdtemp None]\<rparr>)
      | (Inr tempdir, f1) \<Rightarrow>
          (case try_body os tempdir commands subdirs
                  \<lparr>fs = f1, calls = [Mkdtemp (Some tempdir)]\<rparr> of
             (r, w) \<Rightarrow>
               if \<not> keep_data
               then (case rmtree os tempdir (fs w) of
                       (r', f2) \<Rightarrow>
                         (case r' of Some x \<Rightarrow> Some x | None \<Rightarrow> r,
                          \<lparr>fs = f2, calls = calls w @ [Rmtree tempdir r']\<rparr>))
               else (r, w)))"

text \<open>
  What \<open>shutil.rmtree\<close> promises: when it returns normally, the directory is gone.
\<close>

definition rmtree_removes :: "'fs os \<Rightarrow> bool" where
  "rmtree_removes os = (\<forall>p f f'. rmtree os p f = (None, f') \<longrightarrow> \<not> isdir os f' p)"

text \<open>
  A file system for examples: the paths that exist, and the directories made read-only.
\<close>

record demo_fs =
  paths :: "string list"
  read_only :: "string list"

text \<open>\<open>q\<close> is \<open>p\<close> or lies below \<open>p\<close>.\<close>

definition in_tree :: "string \<Rightarrow> string \<Rightarrow> bool" where
  "in_tree p q = (q = p \<or> take (Suc (length p)) q = p @ ''/'')"

text \<open>
  An operating system for examples.
  \<^item> \<open>mkdtemp\<close> creates \<open>/tmp/t\<close>.
  \<^item> \<open>makedirs\<close> raises \<open>FileExistsError\<close> when the path exists and creates it
    otherwise.
  \<^item> The command \<open>false\<close> fails; \<open>chmod 500 p\<close> makes \<open>p\<close> read-only; every other
    command succeeds and changes nothing.
  \<^item> The context manager invokes the callback after a body that ends normally.
  \<^item> \<open>rmtree p\<close> raises \<open>FileNotFoundError\<close> when \<open>p\<close> does not exist, and
    \<open>PermissionError\<close> when the tree holds a read-only directory that is not empty, whose
    entries cannot be removed; it then leaves \<open>p\<close> in place. Otherwise it removes \<open>p\<close>
    and everything below it.
\<close>

definition demo_rmtree :: "string \<Rightarrow> demo_fs \<Rightarrow> exn option \<times> demo_fs" where
  "demo_rmtree p f =
     (if p \<notin> set (paths f) then (Some FileNotFoundError, f)
      else if \<exists>q \<in> set (read_only f). in_tree p q \<and> (\<exists>c \<in> set (paths f). c \<noteq> q \<and> in_tree q c)
      then (Some PermissionError, f)
      else (None, f\<lparr>paths := filter (\<lambda>q. \<not> in_tree p q) (paths f)\<rparr>))"

definition demo_os :: "demo_fs os" where
  "demo_os =
     \<lparr>environ = Map.empty,
      mkdtemp = (\<lambda>f. (Inr ''/tmp/t'', f\<lparr>paths := paths f @ [''/tmp/t'']\<rparr>)),
      makedirs = (\<lambda>p f.
         if p \<in> set (paths f) then (Some FileExistsError, f)
         else (None, f\<lparr>paths := paths f @ [p]\<rparr>)),
      check_call = (\<lambda>cmdline f.
         case cmdline of
           [c, m, p] \<Rightarrow>
             if c = ''chmod'' \<and> m = ''500'' then (None, f\<lparr>read_only := p # read_only f\<rparr>)
             else (None, f)
         | _ \<Rightarrow> if cmdline = [''false''] then (Some (Raised ''CalledProcessError''), f)
                else (None, f)),
      timeit = (\<lambda>cb body f.
         case body f of (None, f') \<Rightarrow> (cb, f') | (Some x, f') \<Rightarrow> (Some x, f')),
      rmtree = demo_rmtree,
      isdir = (\<lambda>f p. p \<in> set (paths f))\<rparr>"

definition demo_fs0 :: demo_fs where
  "demo_fs0 = \<lparr>paths = [''/tmp''], read_only = []\<rparr>"

section \<open>starfish.core.spots.DecodeSpots: the exported names\<close>

text \<open>
  A class value carries its name and its direct bases. \<open>inherits c d\<close> holds when \<open>d\<close> is
  \<open>c\<close> itself or is reached from \<open>c\<close> through bases, that is, when \<open>d\<close> is in the method
  resolution order of \<open>c\<close>; in particular every class inherits from itself.
\<close>

datatype pyclass = PyClass (class_name: string) (class_bases: "pyclass list")

fun inherits :: "pyclass \<Rightarrow> pyclass \<Rightarrow> bool" where
  "inherits (PyClass n bs) d = (PyClass n bs = d \<or> (\<exists>b \<in> set bs. inherits b d))"

text \<open>
  \<open>issubclass(c, d)\<close> holds when \<open>c\<close> inherits from \<open>d\<close>, and also when \<open>c\<close> is a virtual
  subclass of \<open>d\<close>: an abstract base class accepts the classes registered with it
  (\<open>ABCMeta.register\<close>) without their naming it among their bases. Registrations are made
  at run time, by modules that are not among the sources, so the relation \<open>registered\<close>
  they produce is a parameter; nothing is assumed about it.
\<close>

definition issubclass :: "(pyclass \<Rightarrow> pyclass \<Rightarrow> bool) \<Rightarrow> pyclass \<Rightarrow> pyclass \<Rightarrow> bool" where
  "issubclass registered c d = (inherits c d \<or> registered c d)"

text \<open>
  The values bound in the namespace of the package: classes, modules, and everything else
  (strings, \<open>None\<close>, the loader, the module spec, lists and dictionaries).
\<close>

datatype pyvalue = ClassV pyclass | ModuleV string | OtherV

text \<open>
  The filter of the comprehension:
  \<open>isinstance(implementation_cls, type) and issubclass(implementation_cls, DecodeSpotsAlgorithm)\<close>.
\<close>

fun exported :: "(pyclass \<Rightarrow> pyclass \<Rightarrow> bool) \<Rightarrow> pyclass \<Rightarrow> pyvalue \<Rightarrow> bool" where
  "exported registered base (ClassV c) = issubclass registered c base"
| "exported registered base v = False"

text \<open>The names every package namespace holds before its body runs; none is a class.\<close>

definition module_dunders :: "(string \<times> pyvalue) list" where
  "module_dunders = map (\<lambda>n. (n, OtherV))
     [''__name__'', ''__doc__'', ''__package__'', ''__loader__'', ''__spec__'', ''__path__'',
      ''__file__'', ''__cached__'', ''__builtins__'']"

text \<open>
  \<open>locals()\<close> at line 9 of \<open>__init__.py\<close>, in insertion order: each
  \<open>from .m import C\<close> binds the submodule \<open>m\<close> and then the class \<open>C\<close>. The six classes
  are declared in modules that are not among the sources, so they are parameters.
\<close>

definition DecodeSpots_locals ::
  "pyclass \<Rightarrow> pyclass \<Rightarrow> pyclass \<Rightarrow> pyclass \<Rightarrow> pyclass \<Rightarrow> pyclass \<Rightarrow> (string \<times> pyvalue) list" where
  "DecodeSpots_locals DecodeSpotsAlgorithm CheckAll MetricDistance PerRoundMaxChannel
       SimpleLookupDecoder MultiBarcodeDecoder =
     module_dunders @
     [(''_base'', ModuleV ''_base''),
      (''DecodeSpotsAlgorithm'', ClassV DecodeSpotsAlgorithm),
      (''check_all_decoder'', ModuleV ''check_all_decoder''),
      (''CheckAll'', ClassV CheckAll),
      (''metric_decoder'', ModuleV ''metric_decoder''),
      (''MetricDistance'', ClassV MetricDistance),
      (''per_round_max_channel_decoder'', ModuleV ''per_round_max_channel_decoder''),
      (''PerRoundMaxChannel'', ClassV PerRoundMaxChannel),
      (''simple_lookup_decoder'', ModuleV ''simple_lookup_decoder''),
      (''SimpleLookupDecoder'', ClassV SimpleLookupDecoder),
      (''multi_barcode_decoder'', ModuleV ''multi_barcode_decoder''),
      (''MultiBarcodeDecoder'', ClassV MultiBarcodeDecoder)]"

text \<open>
  \<open>__all__ = list(set(name for name, cls in locals().items() if ...))\<close>. The order of
  the list is that of a Python set, which is not specified; the model keeps the set.
\<close>

definition all_names ::
  "(pyclass \<Rightarrow> pyclass \<Rightarrow> bool) \<Rightarrow> pyclass \<Rightarrow> (string \<times> pyvalue) list \<Rightarrow> string set" where
  "all_names registered base ns =
     set (map fst (filter (\<lambda>(implementation_name, implementation_cls).
                              exported registered base implementation_cls) ns))"

definition DecodeSpots_all ::
  "(pyclass \<Rightarrow> pyclass \<Rightarrow> bool) \<Rightarrow> pyclass \<Rightarrow> pyclass \<Rightarrow> pyclass \<Rightarrow> pyclass \<Rightarrow> pyclass \<Rightarrow> pyclass
     \<Rightarrow> string set" where
  "DecodeSpots_all registered DecodeSpotsAlgorithm CheckAll MetricDistance PerRoundMaxChannel
       SimpleLookupDecoder MultiBarcodeDecoder =
     all_names registered DecodeSpotsAlgorithm
       (DecodeSpots_locals DecodeSpotsAlgorithm CheckAll MetricDistance PerRoundMaxChannel
          SimpleLookupDecoder MultiBarcodeDecoder)"

text \<open>
  Modelled from the spec: the class declarations of \<open>_base.py\<close>, \<open>check_all_decoder.py\<close>,
  \<open>metric_decoder.py\<close>, \<open>per_round_max_channel_decoder.py\<close>, \<open>simple_lookup_decoder.py\<close>
  and \<open>multi_barcode_decoder.py\<close>, which are not among the sources. The spec has one
  abstract contract and five strategies that implement it, with no further hierarchy.
\<close>

definition DecodeSpotsAlgorithm_class :: pyclass where
  "DecodeSpotsAlgorithm_class = PyClass ''DecodeSpotsAlgorithm'' []"

definition strategy_class :: "string \<Rightarrow> pyclass" where
  "strategy_class n = PyClass n [DecodeSpotsAlgorithm_class]"

text \<open>The run in which no virtual subclass is registered.\<close>

definition no_registrations :: "pyclass \<Rightarrow> pyclass \<Rightarrow> bool" where
  "no_registrations c d = False"

section \<open>The spot-decoding engine\<close>

text \<open>
  The decoders themselves (\<open>_base.py\<close>, \<open>simple_lookup_decoder.py\<close>,
  \<open>per_round_max_channel_decoder.py\<close>, \<open>metric_decoder.py\<close>, \<open>check_all_decoder.py\<close>,
  \<open>multi_barcode_decoder.py\<close>) are not among the sources. The definitions of this
  section follow the specification, section by section.
\<close>

text \<open>Modelled from the spec: the error kinds of the decoding contract (sections 4.1
  and 7), raised by the absent decoder modules.\<close>

datatype decode_error = DimensionMismatch | InvalidCodebook | InvalidOptions

text \<open>Modelled from the spec: the Codebook of section 3 (absent from the sources): the
  declared numbers of rounds and channels, and the entries in codebook order, each a
  target identity with its barcode. A barcode names the channel activated in each round
  (one-hot per round, as in section 4.4 and the scenario of section 8).\<close>

record codebook =
  cb_rounds :: nat
  cb_channels :: nat
  cb_entries :: "(string \<times> nat list) list"

text \<open>Modelled from the spec: a record of the Intensity Table of section 3 (absent from
  the sources): spot identifier, coordinates, and the intensities by round and channel.\<close>

record spot =
  spot_id :: nat
  coords :: "real \<times> real \<times> real"
  intensities :: "real list list"

text \<open>Modelled from the spec: the Intensity Table of section 3 (absent from the
  sources), with its declared dimensions.\<close>

record intensity_table =
  it_rounds :: nat
  it_channels :: nat
  it_spots :: "spot list"

text \<open>Modelled from the spec: the reasons of a "no call" (section 7 names
  below-threshold, ambiguous-round, conflict and exceeds-cost-bound; sections 4.2 to 4.4
  add no match, no signal and ambiguous).\<close>

datatype no_call_reason =
  BelowThreshold | AmbiguousRound | Conflict | ExceedsCostBound | NoMatch | NoSignal | Ambiguous

text \<open>Modelled from the spec: the assigned target identity or the sentinel "no call" of
  a Decoded Table record (section 3).\<close>

datatype call = Called string | NoCall no_call_reason

text \<open>Modelled from the spec: a record of the Decoded Table of section 3 (absent from
  the sources): the spot it refers to, the call, the distance or cost behind the call and
  the quality score, where the strategy computes them.\<close>

record decoded =
  d_spot :: nat
  d_call :: call
  d_distance :: "real option"
  d_quality :: "real option"

text \<open>Modelled from the spec: the Codebook invariant of section 3 (no two entries share
  a barcode) and its agreement with its own dimensions.\<close>

definition valid_codebook :: "codebook \<Rightarrow> bool" where
  "valid_codebook cb =
     (distinct (map snd (cb_entries cb)) \<and>
      (\<forall>b \<in> set (map snd (cb_entries cb)).
         length b = cb_rounds cb \<and> (\<forall>c \<in> set b. c < cb_channels cb)))"

text \<open>Modelled from the spec: the input condition of section 4.1, that the (round,
  channel) dimensions of the table match the codebook's, with the Intensity Table
  invariant that every spot has a measurement for every declared pair.\<close>

definition dimensions_agree :: "intensity_table \<Rightarrow> codebook \<Rightarrow> bool" where
  "dimensions_agree tbl cb =
     (it_rounds tbl = cb_rounds cb \<and> it_channels tbl = cb_channels cb \<and>
      (\<forall>s \<in> set (it_spots tbl).
         length (intensities s) = it_rounds tbl \<and>
         (\<forall>row \<in> set (intensities s). length row = it_channels tbl)))"

text \<open>Modelled from the spec: the exact-match lookup of a barcode in the codebook
  (sections 4.2 and 4.3).\<close>

definition lookup_barcode :: "codebook \<Rightarrow> nat list \<Rightarrow> call" where
  "lookup_barcode cb b =
     (case find (\<lambda>e. snd e = b) (cb_entries cb) of
        Some e \<Rightarrow> Called (fst e)
      | None \<Rightarrow> NoCall NoMatch)"

text \<open>Modelled from the spec: the "no call" record of a spot (section 3).\<close>

definition no_call :: "spot \<Rightarrow> no_call_reason \<Rightarrow> decoded" where
  "no_call s r = \<lparr>d_spot = spot_id s, d_call = NoCall r, d_distance = None, d_quality = None\<rparr>"

text \<open>Modelled from the spec: the thresholding of SimpleLookupDecoder (section 4.2): a
  channel is activated if its intensity exceeds the threshold.\<close>

definition active_channels :: "real \<Rightarrow> real list \<Rightarrow> nat list" where
  "active_channels thr row = filter (\<lambda>c. thr < row ! c) [0..<length row]"

text \<open>Modelled from the spec: SimpleLookupDecoder on one spot (section 4.2). A round with
  more than one active channel is ambiguous; an ambiguous round, or no match, yields
  "no call". A round with no active channel matches no barcode.\<close>

definition simple_lookup_spot :: "real \<Rightarrow> codebook \<Rightarrow> spot \<Rightarrow> decoded" where
  "simple_lookup_spot thr cb s =
     (let pattern = map (active_channels thr) (intensities s) in
      if \<exists>a \<in> set pattern. 1 < length a then no_call s AmbiguousRound
      else if \<exists>a \<in> set pattern. a = [] then no_call s NoMatch
      else \<lparr>d_spot = spot_id s, d_call = lookup_barcode cb (map hd pattern),
             d_distance = None, d_quality = None\<rparr>)"

text \<open>Modelled from the spec: the channel of maximum intensity of a round, ties broken
  by the lowest channel index (section 4.3).\<close>

fun max_channel :: "real list \<Rightarrow> nat" where
  "max_channel [] = 0"
| "max_channel [x] = 0"
| "max_channel (x # xs) = (let m = max_channel xs in if x < xs ! m then Suc m else 0)"

text \<open>Modelled from the spec: PerRoundMaxChannel on one spot (section 4.3), with the
  optional intensity floor. Section 3 gives a codebook no wildcard positions, so a round
  below the floor makes the spot a "no call".\<close>

definition per_round_max_spot :: "real option \<Rightarrow> codebook \<Rightarrow> spot \<Rightarrow> decoded" where
  "per_round_max_spot flr cb s =
     (let picks = map max_channel (intensities s) in
      if \<exists>(row, c) \<in> set (zip (intensities s) picks).
           case flr of None \<Rightarrow> False | Some f \<Rightarrow> row = [] \<or> row ! c < f
      then no_call s NoSignal
      else \<lparr>d_spot = spot_id s, d_call = lookup_barcode cb picks,
             d_distance = None, d_quality = None\<rparr>)"

text \<open>Modelled from the spec: the scaling of a vector to Euclidean length 1, used by
  the normalizations of MetricDistance (section 4.4); the zero vector is left as it is.\<close>

definition l2_normalize :: "real list \<Rightarrow> real list" where
  "l2_normalize v =
     (let n = sqrt (sum_list (map (\<lambda>x. x * x) v)) in if n = 0 then v else map (\<lambda>x. x / n) v)"

text \<open>Modelled from the spec: the normalization "none" of section 4.4, which only
  flattens the array.\<close>

definition norm_none :: "real list list \<Rightarrow> real list" where
  "norm_none m = concat m"

text \<open>Modelled from the spec: the normalization "L2" of section 4.4, over the whole
  flattened vector.\<close>

definition norm_l2 :: "real list list \<Rightarrow> real list" where
  "norm_l2 m = l2_normalize (concat m)"

text \<open>Modelled from the spec: the normalization "per-round" of section 4.4, each
  round normalized on its own.\<close>

definition norm_per_round :: "real list list \<Rightarrow> real list" where
  "norm_per_round m = concat (map l2_normalize m)"

text \<open>Modelled from the spec: the one-hot encoding of the channel of one round
  (section 4.4).\<close>

definition one_hot :: "nat \<Rightarrow> nat \<Rightarrow> real list" where
  "one_hot n c = map (\<lambda>i. if i = c then 1 else 0) [0..<n]"

text \<open>Modelled from the spec: the vector representation of a barcode (section 4.4), the
  one-hot-per-round encoding; the optional weighting is not modelled.\<close>

definition barcode_vector :: "nat \<Rightarrow> nat list \<Rightarrow> real list" where
  "barcode_vector n b = concat (map (one_hot n) b)"

text \<open>Modelled from the spec: the Distance Metric of section 3, a function of two
  equal-length vectors returning a non-negative scalar with the standard metric properties
  the decoder relies on: it is zero exactly on equal vectors, and symmetric.\<close>

definition distance_metric :: "(real list \<Rightarrow> real list \<Rightarrow> real) \<Rightarrow> bool" where
  "distance_metric d =
     (\<forall>x y. length x = length y \<longrightarrow>
        0 \<le> d x y \<and> (d x y = 0 \<longleftrightarrow> x = y) \<and> d x y = d y x)"

text \<open>Modelled from the spec: one pluggable metric (section 2, Distance Metric Module),
  the sum of absolute differences.\<close>

definition manhattan :: "real list \<Rightarrow> real list \<Rightarrow> real" where
  "manhattan x y = sum_list (map2 (\<lambda>a b. \<bar>a - b\<bar>) x y)"

text \<open>Modelled from the spec: the options of MetricDistance (sections 4.4 and 6).\<close>

record metric_options =
  metric :: "real list \<Rightarrow> real list \<Rightarrow> real"
  normalize :: "real list list \<Rightarrow> real list"
  threshold :: real

text \<open>Modelled from the spec: the clamping of the quality score to [0, 1] (section 4.4).\<close>

definition clamp01 :: "real \<Rightarrow> real" where
  "clamp01 x = max 0 (min 1 x)"

text \<open>Modelled from the spec: MetricDistance on one spot (section 4.4). The distance to
  every codebook entry is computed; two entries at the minimum distance make the spot
  ambiguous; otherwise the nearest entry is assigned if its distance is below the
  threshold. Distances are real numbers here, so "equidistant within floating-point
  tolerance" is equality.\<close>

definition metric_distance_spot :: "metric_options \<Rightarrow> codebook \<Rightarrow> spot \<Rightarrow> decoded" where
  "metric_distance_spot opts cb s =
     (let v = normalize opts (intensities s);
          ds = map (\<lambda>e. (fst e, metric opts v (barcode_vector (cb_channels cb) (snd e))))
                   (cb_entries cb)
      in if ds = [] then no_call s NoMatch
         else let dmin = Min (set (map snd ds));
                  nearest = filter (\<lambda>e. snd e = dmin) ds
              in if 1 < length nearest then no_call s Ambiguous
                 else if dmin < threshold opts
                 then \<lparr>d_spot = spot_id s, d_call = Called (fst (hd nearest)),
                        d_distance = Some dmin,
                        d_quality = Some (clamp01 (1 - dmin / threshold opts))\<rparr>
                 else no_call s BelowThreshold)"

text \<open>Modelled from the spec: the options of CheckAll (sections 4.5 and 6). The cost of
  calling a channel in a round and the cost of a corrected round are left open by the
  specification (section 9) and are options.\<close>

record check_all_options =
  round_cost :: "real list \<Rightarrow> nat \<Rightarrow> real"
  miss_cost :: real
  error_rounds :: int
  max_cost :: real

text \<open>Modelled from the spec: the interpretations of a barcode in CheckAll (section
  4.5): the subsets of at most \<open>k\<close> rounds treated as corrected.\<close>

definition interpretations :: "nat \<Rightarrow> nat \<Rightarrow> nat list list" where
  "interpretations n k = filter (\<lambda>m. length m \<le> k) (subseqs [0..<n])"

text \<open>Modelled from the spec: the assignment cost of an interpretation (section 4.5),
  summed across rounds.\<close>

definition interpretation_cost ::
  "check_all_options \<Rightarrow> real list list \<Rightarrow> nat list \<Rightarrow> nat list \<Rightarrow> real" where
  "interpretation_cost opts m b missed =
     sum_list (map (\<lambda>r. if r \<in> set missed then miss_cost opts
                         else round_cost opts (m ! r) (b ! r))
                   [0..<length b])"

text \<open>Modelled from the spec: the order in which CheckAll selects (section 4.5): lower
  cost, then fewer corrected rounds, then codebook entry order.\<close>

fun better :: "real \<times> nat \<times> nat \<times> string \<Rightarrow> real \<times> nat \<times> nat \<times> string \<Rightarrow> bool" where
  "better (c1, k1, i1, t1) (c2, k2, i2, t2) =
     (c1 < c2 \<or> (c1 = c2 \<and> (k1 < k2 \<or> (k1 = k2 \<and> i1 < i2))))"

text \<open>Modelled from the spec: the selection of the globally best interpretation
  (section 4.5); among equals the earlier one is kept.\<close>

fun best :: "(real \<times> nat \<times> nat \<times> string) list \<Rightarrow> (real \<times> nat \<times> nat \<times> string) option" where
  "best [] = None"
| "best (x # xs) =
     (case best xs of None \<Rightarrow> Some x | Some y \<Rightarrow> if better y x then Some y else Some x)"

text \<open>Modelled from the spec: CheckAll on one spot (section 4.5): the minimum-cost
  interpretation over all codebook entries, "no call" when its cost exceeds the bound.\<close>

definition check_all_spot :: "check_all_options \<Rightarrow> codebook \<Rightarrow> spot \<Rightarrow> decoded" where
  "check_all_spot opts cb s =
     (let cands = concat (map (\<lambda>(i, e).
                     map (\<lambda>missed. (interpretation_cost opts (intensities s) (snd e) missed,
                                      length missed, i, fst e))
                         (interpretations (cb_rounds cb) (nat (error_rounds opts))))
                   (enumerate 0 (cb_entries cb)))
      in case best cands of
           None \<Rightarrow> no_call s NoMatch
         | Some (c, k, i, t) \<Rightarrow>
             if c \<le> max_cost opts
             then \<lparr>d_spot = spot_id s, d_call = Called t, d_distance = Some c,
                    d_quality = None\<rparr>
             else no_call s ExceedsCostBound)"

text \<open>Modelled from the spec: the five decoding strategies with their options (sections
  2 and 4). MultiBarcodeDecoder wraps sub-decoders, each bound to a codebook, with an
  optional priority order among them (positions in the list, highest priority first).\<close>

datatype decoder =
    SimpleLookupDecoder real
  | PerRoundMaxChannel "real option"
  | MetricDistance metric_options
  | CheckAll check_all_options
  | MultiBarcodeDecoder "(decoder \<times> codebook) list" "nat list option"

text \<open>Modelled from the spec: whether a record assigns a target identity or is a
  "no call" (section 3).\<close>

fun is_called :: "call \<Rightarrow> bool" where
  "is_called (Called t) = True"
| "is_called (NoCall r) = False"

text \<open>Modelled from the spec: the merge policy of MultiBarcodeDecoder (section 4.6) for
  one spot, given the records of the sub-decoders in their order. A spot no sub-decoder
  calls stays "no call"; one identity among the calls is taken; different identities are
  a conflict, unless a priority order is configured, in which case the call of the
  highest-priority sub-decoder that called wins.\<close>

definition merge_records :: "nat list option \<Rightarrow> nat \<Rightarrow> decoded list \<Rightarrow> decoded" where
  "merge_records priority sid recs =
     (let called = filter (\<lambda>r. is_called (d_call r)) recs in
      case remdups (map d_call called) of
        [] \<Rightarrow>
          (case recs of
             [] \<Rightarrow> \<lparr>d_spot = sid, d_call = NoCall NoMatch, d_distance = None, d_quality = None\<rparr>
           | r # _ \<Rightarrow> r)
      | [c] \<Rightarrow> hd called
      | _ \<Rightarrow>
         (case priority of
            None \<Rightarrow>
              \<lparr>d_spot = sid, d_call = NoCall Conflict, d_distance = None, d_quality = None\<rparr>
          | Some order \<Rightarrow>
              (case filter (\<lambda>i. i < length recs \<and> is_called (d_call (recs ! i))) order of
                 [] \<Rightarrow>
                   \<lparr>d_spot = sid, d_call = NoCall Conflict, d_distance = None,
                    d_quality = None\<rparr>
               | i # _ \<Rightarrow> recs ! i)))"

text \<open>Modelled from the spec: the eager validation of options (sections 4.1 and 7):
  thresholds, floors and cost bounds are not negative, the threshold of MetricDistance is
  positive, \<open>error_rounds\<close> is not negative, MultiBarcodeDecoder wraps one or more
  sub-decoders and a priority order lists each of them once.\<close>

fun valid_options :: "decoder \<Rightarrow> bool" where
  "valid_options (SimpleLookupDecoder thr) = (0 \<le> thr)"
| "valid_options (PerRoundMaxChannel flr) = (case flr of None \<Rightarrow> True | Some f \<Rightarrow> 0 \<le> f)"
| "valid_options (MetricDistance opts) = (0 < threshold opts)"
| "valid_options (CheckAll opts) = (0 \<le> error_rounds opts \<and> 0 \<le> max_cost opts)"
| "valid_options (MultiBarcodeDecoder subs priority) =
     (subs \<noteq> [] \<and>
      (case priority of
         None \<Rightarrow> True
       | Some order \<Rightarrow> set order = {0..<length subs} \<and> distinct order))"

text \<open>Modelled from the spec: the fatal errors of the contract (sections 4.1 and 7),
  found before any spot is decoded: \<open>InvalidCodebook\<close> for duplicate barcodes,
  \<open>InvalidOptions\<close> for options out of range, \<open>DimensionMismatch\<close> when table and
  codebook disagree.\<close>

definition contract_violation ::
  "decoder \<Rightarrow> intensity_table \<Rightarrow> codebook \<Rightarrow> decode_error option" where
  "contract_violation d tbl cb =
     (if \<not> valid_codebook cb then Some InvalidCodebook
      else if \<not> valid_options d then Some InvalidOptions
      else if \<not> dimensions_agree tbl cb then Some DimensionMismatch
      else None)"

text \<open>Modelled from the spec: the independent runs of the sub-decoders of
  MultiBarcodeDecoder (section 4.6): their tables, or the first fatal error among them.\<close>

fun collect_tables :: "(decode_error + decoded list) list \<Rightarrow> decode_error + decoded list list" where
  "collect_tables [] = Inr []"
| "collect_tables (Inl e # results) = Inl e"
| "collect_tables (Inr t # results) =
     (case collect_tables results of Inl e \<Rightarrow> Inl e | Inr ts \<Rightarrow> Inr (t # ts))"

text \<open>Modelled from the spec: the records the sub-decoder tables hold for a spot, the
  tables being keyed by spot identifier (sections 4.6 and 9).\<close>

definition spot_records :: "decoded list list \<Rightarrow> nat \<Rightarrow> decoded list" where
  "spot_records tables sid = concat (map (filter (\<lambda>r. d_spot r = sid)) tables)"

text \<open>Modelled from the spec: \<open>decode(intensity_table, codebook, **options)\<close> of the
  contract (section 4.1), for the five strategies. The contract is checked first; then
  every spot is decoded on its own and the records are concatenated (section 5).
  MultiBarcodeDecoder runs its sub-decoders over the same table and merges their
  tables (section 4.6).\<close>

fun decode :: "decoder \<Rightarrow> intensity_table \<Rightarrow> codebook \<Rightarrow> decode_error + decoded list" where
  "decode (SimpleLookupDecoder thr) tbl cb =
     (case contract_violation (SimpleLookupDecoder thr) tbl cb of
        Some e \<Rightarrow> Inl e
      | None \<Rightarrow> Inr (map (simple_lookup_spot thr cb) (it_spots tbl)))"
| "decode (PerRoundMaxChannel flr) tbl cb =
     (case contract_violation (PerRoundMaxChannel flr) tbl cb of
        Some e \<Rightarrow> Inl e
      | None \<Rightarrow> Inr (map (per_round_max_spot flr cb) (it_spots tbl)))"
| "decode (MetricDistance opts) tbl cb =
     (case contract_violation (MetricDistance opts) tbl cb of
        Some e \<Rightarrow> Inl e
      | None \<Rightarrow> Inr (map (metric_distance_spot opts cb) (it_spots tbl)))"
| "decode (CheckAll opts) tbl cb =
     (case contract_violation (CheckAll opts) tbl cb of
        Some e \<Rightarrow> Inl e
      | None \<Rightarrow> Inr (map (check_all_spot opts cb) (it_spots tbl)))"
| "decode (MultiBarcodeDecoder subs priority) tbl cb =
     (case contract_violation (MultiBarcodeDecoder subs priority) tbl cb of
        Some e \<Rightarrow> Inl e
      | None \<Rightarrow>
          (case collect_tables (map (\<lambda>sub. decode (fst sub) tbl (snd sub)) subs) of
             Inl e \<Rightarrow> Inl e
           | Inr tables \<Rightarrow>
               Inr (map (\<lambda>s. merge_records priority (spot_id s)
                                (spot_records tables (spot_id s)))
                        (it_spots tbl))))"

text \<open>Modelled from the spec: the table of the scenario of section 8: two rounds, two
  channels, the spot of identifier 8 measured exactly as the pattern [[1,0],[0,1]] and the
  spot of identifier 7 as [[0.9,0.1],[0.0,1.0]].\<close>

definition demo_table :: intensity_table where
  "demo_table = \<lparr>it_rounds = 2, it_channels = 2,
     it_spots = [\<lparr>spot_id = 7, coords = (0, 0, 0), intensities = [[9/10, 1/10], [0, 1]]\<rparr>,
                 \<lparr>spot_id = 8, coords = (1, 0, 0), intensities = [[1, 0], [0, 1]]\<rparr>]\<rparr>"

text \<open>Modelled from the spec: the codebook of the scenario of section 8, with entries
  [[1,0],[0,1]] and [[1,0],[1,0]] under the given target identities.\<close>

definition demo_codebook :: "string \<Rightarrow> string \<Rightarrow> codebook" where
  "demo_codebook a b =
     \<lparr>cb_rounds = 2, cb_channels = 2, cb_entries = [(a, [0, 1]), (b, [0, 0])]\<rparr>"

text \<open>Modelled from the spec: two sub-decoders for MultiBarcodeDecoder (section 4.6),
  bound to codebooks that name the same barcode differently.\<close>

definition demo_subs :: "(decoder \<times> codebook) list" where
  "demo_subs = [(PerRoundMaxChannel None, demo_codebook ''A'' ''B''),
                (SimpleLookupDecoder (1/2), demo_codebook ''C'' ''B'')]"

section \<open>Properties of prepare_stage\<close>

lemma yields_eval: "yields tempdir e r = (eval_element tempdir e = Inr r)"
  by (cases e) auto

lemma build_cmdline_yields:
  "list_all2 (yields tempdir) stage rs \<Longrightarrow> build_cmdline tempdir stage = Inr rs"
proof (induction stage arbitrary: rs)
  case Nil
  then show ?case by simp
next
  case (Cons e es)
  then obtain r rs' where rs: "rs = r # rs'" "yields tempdir e r"
    "list_all2 (yields tempdir) es rs'"
    by (auto simp: list_all2_Cons1)
  have "build_cmdline tempdir es = Inr rs'"
    by (rule Cons.IH [OF rs(3)])
  moreover have "eval_element tempdir e = Inr r"
    using rs(2) by (simp add: yields_eval)
  ultimately show ?case
    by (simp add: rs(1))
qed

lemma build_cmdline_length:
  "build_cmdline tempdir stage = Inr rs \<Longrightarrow> length rs = length stage"
  by (induction stage arbitrary: rs) (auto split: sum.splits)

text \<open>
  Claim C10. On the empty stage the built command line is empty and reading its first
  element raises \<open>IndexError\<close>, for every \<open>tempdir\<close> and every environment; hence
  whenever \<open>prepare_stage\<close> returns a command line, the stage was not empty.
\<close>

theorem prepare_stage_empty_IndexError:
  "prepare_stage env [] tempdir = Inl IndexError \<and>
   (\<forall>stage cmdline. prepare_stage env stage tempdir = Inr cmdline \<longrightarrow> stage \<noteq> [])"
  by (auto simp: prepare_stage_def)

theorem prepare_stage_empty_IndexError_witness:
  "prepare_stage [''STARFISH_COVERAGE'' \<mapsto> ''1''] [] ''/tmp/tmpab12'' = Inl IndexError \<and>
   prepare_stage [''STARFISH_COVERAGE'' \<mapsto> ''1''] [Str ''ls''] ''/tmp/tmpab12'' = Inr [''ls''] \<and>
   [Str ''ls''] \<noteq> []"
  using prepare_stage_empty_IndexError
    [of "[''STARFISH_COVERAGE'' \<mapsto> ''1'']" "''/tmp/tmpab12''"]
  by (simp add: prepare_stage_def)

text \<open>
  Claim C9. For a non-empty stage whose elements yield the strings \<open>rs\<close> (element by
  element, so in the same order and of the same length), \<open>prepare_stage\<close> returns \<open>rs\<close>;
  except that with \<open>STARFISH_COVERAGE\<close> set and \<open>starfish\<close> or \<open>validate-sptx\<close> as
  first string, the coverage prefix of that program replaces the first string and the
  remaining strings follow unchanged.
\<close>

theorem prepare_stage_elementwise:
  assumes "stage \<noteq> []" and "list_all2 (yields tempdir) stage rs"
  shows "prepare_stage env stage tempdir =
           Inr (if env ''STARFISH_COVERAGE'' \<noteq> None \<and> hd rs = ''starfish''
                then [''coverage'', ''run'', ''-p'', ''--source'', ''starfish'', ''-m'',
                      ''starfish''] @ tl rs
                else if env ''STARFISH_COVERAGE'' \<noteq> None \<and> hd rs = ''validate-sptx''
                then [''coverage'', ''run'', ''-p'', ''--source'', ''validate_sptx'', ''-m'',
                      ''validate_sptx''] @ tl rs
                else rs)"
proof -
  from assms obtain r rs' where rs: "rs = r # rs'"
    by (cases rs) (auto simp: list_all2_Cons2)
  have "build_cmdline tempdir stage = Inr (r # rs')"
    using build_cmdline_yields [OF assms(2)] rs by simp
  then show ?thesis
    by (simp add: prepare_stage_def rs coverage_starfish_def coverage_validate_sptx_def)
qed

theorem prepare_stage_elementwise_witness:
  "prepare_stage [''STARFISH_COVERAGE'' \<mapsto> ''1'']
     [Str ''starfish'', Callable (\<lambda>t. Inr (t @ ''/out'')), Str ''-v''] ''/tmp/t''
   = Inr [''coverage'', ''run'', ''-p'', ''--source'', ''starfish'', ''-m'', ''starfish'',
          ''/tmp/t/out'', ''-v'']"
  using prepare_stage_elementwise
    [of "[Str ''starfish'', Callable (\<lambda>t. Inr (t @ ''/out'')), Str ''-v'']" "''/tmp/t''"
        "[''starfish'', ''/tmp/t/out'', ''-v'']" "[''STARFISH_COVERAGE'' \<mapsto> ''1'']"]
  by simp


section \<open>Properties of stages\<close>

lemma make_subdirs_calls:
  "make_subdirs os tempdir sds w = (r, w') \<Longrightarrow> Rmtree p out \<in> set (calls w')
     \<Longrightarrow> Rmtree p out \<in> set (calls w)"
proof (induction sds arbitrary: w)
  case Nil
  then show ?case by simp
next
  case (Cons subdir rest)
  let ?p = "path_join tempdir subdir"
  obtain r1 f where m: "makedirs os ?p (fs w) = (r1, f)"
    by (cases "makedirs os ?p (fs w)")
  let ?w = "\<lparr>fs = f, calls = calls w @ [Makedirs ?p r1]\<rparr>"
  show ?case
  proof (cases r1)
    case None
    with Cons.prems m have "make_subdirs os tempdir rest ?w = (r, w')"
      by (simp add: Let_def)
    from Cons.IH [OF this Cons.prems(2)] show ?thesis by simp
  next
    case (Some x)
    with Cons.prems m show ?thesis by (auto simp: Let_def)
  qed
qed

lemma run_commands_calls:
  "run_commands os tempdir commands w = (r, w') \<Longrightarrow> Rmtree p out \<in> set (calls w')
     \<Longrightarrow> Rmtree p out \<in> set (calls w)"
proof (induction commands arbitrary: w)
  case Nil
  then show ?case by simp
next
  case (Cons stage rest)
  show ?case
  proof (cases "prepare_stage (environ os) stage tempdir")
    case (Inl x)
    with Cons.prems show ?thesis by simp
  next
    case (Inr cmdline)
    obtain r1 f where
      t: "timeit os (callback stage) (check_call os cmdline) (fs w) = (r1, f)"
      by (cases "timeit os (callback stage) (check_call os cmdline) (fs w)")
    let ?w = "\<lparr>fs = f, calls = calls w @ [CheckCall cmdline r1]\<rparr>"
    show ?thesis
    proof (cases r1)
      case None
      with Cons.prems Inr t have "run_commands os tempdir rest ?w = (r, w')"
        by simp
      from Cons.IH [OF this Cons.prems(2)] show ?thesis by simp
    next
      case (Some x)
      with Cons.prems Inr t show ?thesis by auto
    qed
  qed
qed

lemma try_body_calls:
  "try_body os tempdir commands subdirs w = (r, w') \<Longrightarrow> Rmtree p out \<in> set (calls w')
     \<Longrightarrow> Rmtree p out \<in> set (calls w)"
  unfolding try_body_def
  by (auto split: if_splits prod.splits option.splits
           dest: make_subdirs_calls run_commands_calls)

lemma demo_rmtree_removes: "rmtree_removes demo_os"
  by (auto simp: rmtree_removes_def demo_os_def demo_rmtree_def in_tree_def split: if_splits)

text \<open>
  Claim C8, as the code has it. Let \<open>tempfile.mkdtemp()\<close> have created \<open>tempdir\<close>. With
  \<open>keep_data\<close> false, whatever the commands and subdirectories are and whether the body
  of the \<open>try\<close> ends normally or with an exception, \<open>stages\<close> calls
  \<open>shutil.rmtree(tempdir)\<close> as its last call, and makes no other call of
  \<open>shutil.rmtree\<close>. When that call returns normally the directory is gone (given what
  \<open>shutil.rmtree\<close> promises); when it raises, its exception leaves \<open>stages\<close>. With
  \<open>keep_data\<close> true, \<open>stages\<close> never calls \<open>shutil.rmtree\<close>, and it leaves with the
  state and the outcome of the \<open>try\<close> body.
\<close>

theorem stages_cleanup:
  assumes "mkdtemp os f0 = (Inr tempdir, f1)"
  shows "(\<exists>outcome.
            last (calls (snd (stages os commands subdirs False f0))) = Rmtree tempdir outcome \<and>
            (outcome = None \<and> rmtree_removes os \<longrightarrow>
               \<not> isdir os (fs (snd (stages os commands subdirs False f0))) tempdir) \<and>
            (\<forall>x. outcome = Some x \<longrightarrow> fst (stages os commands subdirs False f0) = Some x)) \<and>
         Rmtree p out \<notin> set (butlast (calls (snd (stages os commands subdirs False f0)))) \<and>
         Rmtree p out \<notin> set (calls (snd (stages os commands subdirs True f0))) \<and>
         stages os commands subdirs True f0 =
           try_body os tempdir commands subdirs \<lparr>fs = f1, calls = [Mkdtemp (Some tempdir)]\<rparr>"
proof -
  let ?w0 = "\<lparr>fs = f1, calls = [Mkdtemp (Some tempdir)]\<rparr>"
  obtain r w where b: "try_body os tempdir commands subdirs ?w0 = (r, w)"
    by (cases "try_body os tempdir commands subdirs ?w0")
  obtain r' f2 where rm: "rmtree os tempdir (fs w) = (r', f2)"
    by (cases "rmtree os tempdir (fs w)")
  have sf: "stages os commands subdirs False f0 =
              (case r' of Some x \<Rightarrow> Some x | None \<Rightarrow> r,
               \<lparr>fs = f2, calls = calls w @ [Rmtree tempdir r']\<rparr>)"
    using assms b rm by (simp add: stages_def)
  have st: "stages os commands subdirs True f0 = (r, w)"
    using assms b by (simp add: stages_def)
  have none: "Rmtree p out \<notin> set (calls w)"
    using try_body_calls [OF b, of p out] by auto
  have 1: "last (calls (snd (stages os commands subdirs False f0))) = Rmtree tempdir r'"
    by (simp add: sf)
  have 2: "\<not> isdir os (fs (snd (stages os commands subdirs False f0))) tempdir"
    if "r' = None" "rmtree_removes os"
    using that rm by (simp add: sf rmtree_removes_def)
  have 3: "fst (stages os commands subdirs False f0) = Some x" if "r' = Some x" for x
    using that by (simp add: sf)
  have 4: "Rmtree p out \<notin> set (butlast (calls (snd (stages os commands subdirs False f0))))"
    using none by (simp add: sf)
  have 5: "Rmtree p out \<notin> set (calls (snd (stages os commands subdirs True f0)))"
    using none by (simp add: st)
  from 1 2 3 4 5 st b show ?thesis by auto
qed

lemma demo_failing_command:
  "stages demo_os [[Str ''ls'', Str ''-l'', Callable (\<lambda>t. Inr t)], [Str ''false'']]
     (Some [''raw'']) False demo_fs0 =
   (Some (Raised ''CalledProcessError''),
    \<lparr>fs = \<lparr>paths = [''/tmp''], read_only = []\<rparr>,
     calls = [Mkdtemp (Some ''/tmp/t''), Makedirs ''/tmp/t/raw'' None,
              CheckCall [''ls'', ''-l'', ''/tmp/t''] None,
              CheckCall [''false''] (Some (Raised ''CalledProcessError'')),
              Rmtree ''/tmp/t'' None]\<rparr>)"
  by (simp add: stages_def try_body_def prepare_stage_def path_join_def Let_def demo_os_def
      demo_fs0_def demo_rmtree_def in_tree_def callback_def)

theorem stages_cleanup_witness:
  "last (calls (snd (stages demo_os
           [[Str ''ls'', Str ''-l'', Callable (\<lambda>t. Inr t)], [Str ''false'']]
           (Some [''raw'']) False demo_fs0))) = Rmtree ''/tmp/t'' None \<and>
   \<not> isdir demo_os (fs (snd (stages demo_os
           [[Str ''ls'', Str ''-l'', Callable (\<lambda>t. Inr t)], [Str ''false'']]
           (Some [''raw'']) False demo_fs0))) ''/tmp/t'' \<and>
   fst (stages demo_os
           [[Str ''ls'', Str ''-l'', Callable (\<lambda>t. Inr t)], [Str ''false'']]
           (Some [''raw'']) False demo_fs0) = Some (Raised ''CalledProcessError'')"
proof -
  have mk: "mkdtemp demo_os demo_fs0 =
              (Inr ''/tmp/t'', \<lparr>paths = [''/tmp'', ''/tmp/t''], read_only = []\<rparr>)"
    by (simp add: demo_os_def demo_fs0_def)
  from stages_cleanup [OF mk,
      of "[[Str ''ls'', Str ''-l'', Callable (\<lambda>t. Inr t)], [Str ''false'']]" "Some [''raw'']"]
  obtain outcome where
    "last (calls (snd (stages demo_os
        [[Str ''ls'', Str ''-l'', Callable (\<lambda>t. Inr t)], [Str ''false'']]
        (Some [''raw'']) False demo_fs0))) = Rmtree ''/tmp/t'' outcome"
    and "outcome = None \<and> rmtree_removes demo_os \<longrightarrow>
         \<not> isdir demo_os (fs (snd (stages demo_os
        [[Str ''ls'', Str ''-l'', Callable (\<lambda>t. Inr t)], [Str ''false'']]
        (Some [''raw'']) False demo_fs0))) ''/tmp/t''"
    by blast
  then show ?thesis
    using demo_rmtree_removes by (simp add: demo_failing_command)
qed

text \<open>
  The claim as stated, that the directory is removed whenever \<open>keep_data\<close> is false,
  fails: a command makes the temporary directory read-only, \<open>shutil.rmtree\<close> raises
  \<open>PermissionError\<close> on the subdirectory it cannot remove, and \<open>stages\<close> leaves with
  that exception and the directory in place.
\<close>

theorem stages_rmtree_may_fail:
  "isdir demo_os (fs (snd (stages demo_os
       [[Str ''chmod'', Str ''500'', Callable (\<lambda>t. Inr t)]] (Some [''raw'']) False demo_fs0)))
     ''/tmp/t'' \<and>
   fst (stages demo_os
       [[Str ''chmod'', Str ''500'', Callable (\<lambda>t. Inr t)]] (Some [''raw'']) False demo_fs0) =
     Some PermissionError"
  by (simp add: stages_def try_body_def prepare_stage_def path_join_def Let_def demo_os_def
      demo_fs0_def demo_rmtree_def in_tree_def callback_def)

section \<open>Properties of the exported names\<close>

lemma inherits_refl: "inherits c c"
  by (cases c) simp

lemma issubclass_refl: "issubclass registered c c"
  by (simp add: issubclass_def inherits_refl)

lemma in_all_names:
  "name \<in> all_names registered base ns \<longleftrightarrow>
     (\<exists>c. (name, ClassV c) \<in> set ns \<and> issubclass registered c base)"
proof
  assume "name \<in> all_names registered base ns"
  then obtain v where v: "(name, v) \<in> set ns" "exported registered base v"
    by (auto simp: all_names_def)
  then show "\<exists>c. (name, ClassV c) \<in> set ns \<and> issubclass registered c base"
    by (cases v) auto
next
  assume "\<exists>c. (name, ClassV c) \<in> set ns \<and> issubclass registered c base"
  then obtain c where "(name, ClassV c) \<in> set ns" "exported registered base (ClassV c)"
    by auto
  then show "name \<in> all_names registered base ns"
    unfolding all_names_def by (force simp: image_iff)
qed

lemma class_in_DecodeSpots_locals:
  "(name, ClassV c) \<in> set (DecodeSpots_locals base c1 c2 c3 c4 c5) \<longleftrightarrow>
     name = ''DecodeSpotsAlgorithm'' \<and> c = base \<or>
     name = ''CheckAll'' \<and> c = c1 \<or>
     name = ''MetricDistance'' \<and> c = c2 \<or>
     name = ''PerRoundMaxChannel'' \<and> c = c3 \<or>
     name = ''SimpleLookupDecoder'' \<and> c = c4 \<or>
     name = ''MultiBarcodeDecoder'' \<and> c = c5"
  by (simp add: DecodeSpots_locals_def module_dunders_def)

lemma in_DecodeSpots_all:
  "name \<in> DecodeSpots_all reg base c1 c2 c3 c4 c5 \<longleftrightarrow>
     name = ''DecodeSpotsAlgorithm'' \<or>
     name = ''CheckAll'' \<and> issubclass reg c1 base \<or>
     name = ''MetricDistance'' \<and> issubclass reg c2 base \<or>
     name = ''PerRoundMaxChannel'' \<and> issubclass reg c3 base \<or>
     name = ''SimpleLookupDecoder'' \<and> issubclass reg c4 base \<or>
     name = ''MultiBarcodeDecoder'' \<and> issubclass reg c5 base"
  unfolding DecodeSpots_all_def in_all_names class_in_DecodeSpots_locals
  by (simp only: conj_disj_distribR ex_disj_distrib conj_assoc simp_thms ex_simps
      issubclass_refl)

lemma DecodeSpots_locals_lookup:
  "map_of (DecodeSpots_locals base c1 c2 c3 c4 c5) ''DecodeSpotsAlgorithm'' = Some (ClassV base)"
  "map_of (DecodeSpots_locals base c1 c2 c3 c4 c5) ''CheckAll'' = Some (ClassV c1)"
  "map_of (DecodeSpots_locals base c1 c2 c3 c4 c5) ''MetricDistance'' = Some (ClassV c2)"
  "map_of (DecodeSpots_locals base c1 c2 c3 c4 c5) ''PerRoundMaxChannel'' = Some (ClassV c3)"
  "map_of (DecodeSpots_locals base c1 c2 c3 c4 c5) ''SimpleLookupDecoder'' = Some (ClassV c4)"
  "map_of (DecodeSpots_locals base c1 c2 c3 c4 c5) ''MultiBarcodeDecoder'' = Some (ClassV c5)"
  by (simp_all add: DecodeSpots_locals_def module_dunders_def)

text \<open>
  Claim C1, as the code has it. Whatever the six classes and the registrations are,
  \<open>__all__\<close> holds the name \<open>DecodeSpotsAlgorithm\<close>, which passes the filter because a
  class is a subclass of itself, and the name of each of the five strategies whose class is
  a subclass of \<open>DecodeSpotsAlgorithm\<close>, and no other name. Every name of \<open>__all__\<close> is
  bound to a class that is a subclass of \<open>DecodeSpotsAlgorithm\<close>. So when the five
  strategy classes are subclasses of \<open>DecodeSpotsAlgorithm\<close>, \<open>__all__\<close> holds exactly
  six names.
\<close>

theorem DecodeSpots_all_exports:
  "(name \<in> DecodeSpots_all reg base c1 c2 c3 c4 c5 \<longleftrightarrow>
      name = ''DecodeSpotsAlgorithm'' \<or>
      name = ''CheckAll'' \<and> issubclass reg c1 base \<or>
      name = ''MetricDistance'' \<and> issubclass reg c2 base \<or>
      name = ''PerRoundMaxChannel'' \<and> issubclass reg c3 base \<or>
      name = ''SimpleLookupDecoder'' \<and> issubclass reg c4 base \<or>
      name = ''MultiBarcodeDecoder'' \<and> issubclass reg c5 base) \<and>
   (\<forall>n \<in> DecodeSpots_all reg base c1 c2 c3 c4 c5.
      \<exists>c. map_of (DecodeSpots_locals base c1 c2 c3 c4 c5) n = Some (ClassV c) \<and>
          issubclass reg c base) \<and>
   (issubclass reg c1 base \<and> issubclass reg c2 base \<and> issubclass reg c3 base \<and>
    issubclass reg c4 base \<and> issubclass reg c5 base \<longrightarrow>
      DecodeSpots_all reg base c1 c2 c3 c4 c5 =
        {''DecodeSpotsAlgorithm'', ''CheckAll'', ''MetricDistance'', ''PerRoundMaxChannel'',
         ''SimpleLookupDecoder'', ''MultiBarcodeDecoder''})"
proof (intro conjI ballI impI)
  show "name \<in> DecodeSpots_all reg base c1 c2 c3 c4 c5 \<longleftrightarrow>
      name = ''DecodeSpotsAlgorithm'' \<or>
      name = ''CheckAll'' \<and> issubclass reg c1 base \<or>
      name = ''MetricDistance'' \<and> issubclass reg c2 base \<or>
      name = ''PerRoundMaxChannel'' \<and> issubclass reg c3 base \<or>
      name = ''SimpleLookupDecoder'' \<and> issubclass reg c4 base \<or>
      name = ''MultiBarcodeDecoder'' \<and> issubclass reg c5 base"
    by (rule in_DecodeSpots_all)
next
  fix n
  assume "n \<in> DecodeSpots_all reg base c1 c2 c3 c4 c5"
  then consider "n = ''DecodeSpotsAlgorithm''"
    | "n = ''CheckAll''" "issubclass reg c1 base"
    | "n = ''MetricDistance''" "issubclass reg c2 base"
    | "n = ''PerRoundMaxChannel''" "issubclass reg c3 base"
    | "n = ''SimpleLookupDecoder''" "issubclass reg c4 base"
    | "n = ''MultiBarcodeDecoder''" "issubclass reg c5 base"
    unfolding in_DecodeSpots_all by metis
  then show "\<exists>c. map_of (DecodeSpots_locals base c1 c2 c3 c4 c5) n = Some (ClassV c) \<and>
                 issubclass reg c base"
    by cases (simp_all only: DecodeSpots_locals_lookup issubclass_refl option.inject
        pyvalue.inject simp_thms ex_simps)
next
  assume "issubclass reg c1 base \<and> issubclass reg c2 base \<and> issubclass reg c3 base \<and>
    issubclass reg c4 base \<and> issubclass reg c5 base"
  then show "DecodeSpots_all reg base c1 c2 c3 c4 c5 =
        {''DecodeSpotsAlgorithm'', ''CheckAll'', ''MetricDistance'', ''PerRoundMaxChannel'',
         ''SimpleLookupDecoder'', ''MultiBarcodeDecoder''}"
    by (intro set_eqI) (simp only: in_DecodeSpots_all insert_iff empty_iff simp_thms)
qed

theorem DecodeSpots_all_exports_witness:
  "DecodeSpots_all no_registrations DecodeSpotsAlgorithm_class (strategy_class ''CheckAll'')
     (strategy_class ''MetricDistance'') (strategy_class ''PerRoundMaxChannel'')
     (strategy_class ''SimpleLookupDecoder'') (strategy_class ''MultiBarcodeDecoder'') =
   {''DecodeSpotsAlgorithm'', ''CheckAll'', ''MetricDistance'', ''PerRoundMaxChannel'',
    ''SimpleLookupDecoder'', ''MultiBarcodeDecoder''}"
proof -
  have derives: "issubclass no_registrations (strategy_class n) DecodeSpotsAlgorithm_class" for n
    by (simp add: issubclass_def strategy_class_def inherits_refl)
  show ?thesis
    by (rule DecodeSpots_all_exports [THEN conjunct2, THEN conjunct2, THEN mp])
      (intro conjI derives)
qed

text \<open>
  The claim as stated, that exactly the five strategies are exported, fails: the name
  \<open>DecodeSpotsAlgorithm\<close> is exported as well.
\<close>

theorem DecodeSpots_all_not_only_five:
  "DecodeSpots_all no_registrations DecodeSpotsAlgorithm_class (strategy_class ''CheckAll'')
     (strategy_class ''MetricDistance'') (strategy_class ''PerRoundMaxChannel'')
     (strategy_class ''SimpleLookupDecoder'') (strategy_class ''MultiBarcodeDecoder'') \<noteq>
   {''SimpleLookupDecoder'', ''PerRoundMaxChannel'', ''MetricDistance'', ''CheckAll'',
    ''MultiBarcodeDecoder''}"
proof
  assume five:
    "DecodeSpots_all no_registrations DecodeSpotsAlgorithm_class (strategy_class ''CheckAll'')
       (strategy_class ''MetricDistance'') (strategy_class ''PerRoundMaxChannel'')
       (strategy_class ''SimpleLookupDecoder'') (strategy_class ''MultiBarcodeDecoder'') =
     {''SimpleLookupDecoder'', ''PerRoundMaxChannel'', ''MetricDistance'', ''CheckAll'',
      ''MultiBarcodeDecoder''}"
  have "''DecodeSpotsAlgorithm'' \<in>
        DecodeSpots_all no_registrations DecodeSpotsAlgorithm_class (strategy_class ''CheckAll'')
          (strategy_class ''MetricDistance'') (strategy_class ''PerRoundMaxChannel'')
          (strategy_class ''SimpleLookupDecoder'') (strategy_class ''MultiBarcodeDecoder'')"
    by (simp only: in_DecodeSpots_all simp_thms)
  then have "''DecodeSpotsAlgorithm'' \<in>
        {''SimpleLookupDecoder'', ''PerRoundMaxChannel'', ''MetricDistance'', ''CheckAll'',
         ''MultiBarcodeDecoder''}"
    by (simp only: five)
  then show False
    by simp
qed

section \<open>Properties of the decoding contract\<close>

lemma no_call_spot: "d_spot (no_call s r) = spot_id s"
  by (simp add: no_call_def)

lemma simple_lookup_spot_id: "d_spot (simple_lookup_spot thr cb s) = spot_id s"
  by (simp add: simple_lookup_spot_def Let_def no_call_spot)

lemma per_round_max_spot_id: "d_spot (per_round_max_spot flr cb s) = spot_id s"
  by (simp add: per_round_max_spot_def Let_def no_call_spot)

lemma metric_distance_spot_id: "d_spot (metric_distance_spot opts cb s) = spot_id s"
  by (simp add: metric_distance_spot_def Let_def no_call_spot)

lemma check_all_spot_id: "d_spot (check_all_spot opts cb s) = spot_id s"
  by (simp add: check_all_spot_def Let_def no_call_spot split: option.splits prod.splits)

lemma spot_records_id: "r \<in> set (spot_records tables sid) \<Longrightarrow> d_spot r = sid"
  by (auto simp: spot_records_def)

lemma filter_Cons_holds: "filter P xs = y # ys \<Longrightarrow> P y"
  by (metis filter_eq_ConsD)

lemma merge_records_id:
  assumes "\<forall>r \<in> set recs. d_spot r = sid"
  shows "d_spot (merge_records priority sid recs) = sid"
proof -
  let ?called = "filter (\<lambda>r. is_called (d_call r)) recs"
  show ?thesis
  proof (cases "remdups (map d_call ?called)")
    case Nil
    with assms show ?thesis
      by (cases recs) (simp_all add: merge_records_def)
  next
    case (Cons c cs)
    then have "?called \<noteq> []" by auto
    then have "hd ?called \<in> set recs"
      by (metis (no_types, lifting) filter_is_subset hd_in_set subsetD)
    with assms have one: "d_spot (hd ?called) = sid" by blast
    show ?thesis
    proof (cases cs)
      case Nil
      with Cons one show ?thesis by (simp add: merge_records_def)
    next
      case several: (Cons c' cs')
      show ?thesis
      proof (cases priority)
        case None
        with several Cons show ?thesis
          by (simp add: merge_records_def)
      next
        case (Some order)
        let ?P = "\<lambda>i. i < length recs \<and> is_called (d_call (recs ! i))"
        show ?thesis
        proof (cases "filter ?P order")
          case Nil
          with Some several Cons show ?thesis
            by (simp add: merge_records_def)
        next
          case first: (Cons i rest)
          then have "?P i" by (rule filter_Cons_holds)
          then have "recs ! i \<in> set recs" by simp
          with assms have "d_spot (recs ! i) = sid" by blast
          with Some first several Cons show ?thesis
            by (simp add: merge_records_def)
        qed
      qed
    qed
  qed
qed

lemma decode_spot_ids:
  "decode d tbl cb = Inr out \<Longrightarrow> map d_spot out = map spot_id (it_spots tbl)"
proof (cases d)
  case (SimpleLookupDecoder thr)
  then show "decode d tbl cb = Inr out \<Longrightarrow> ?thesis"
    by (auto split: option.splits simp: simple_lookup_spot_id)
next
  case (PerRoundMaxChannel flr)
  then show "decode d tbl cb = Inr out \<Longrightarrow> ?thesis"
    by (auto split: option.splits simp: per_round_max_spot_id)
next
  case (MetricDistance opts)
  then show "decode d tbl cb = Inr out \<Longrightarrow> ?thesis"
    by (auto split: option.splits simp: metric_distance_spot_id)
next
  case (CheckAll opts)
  then show "decode d tbl cb = Inr out \<Longrightarrow> ?thesis"
    by (auto split: option.splits simp: check_all_spot_id)
next
  case (MultiBarcodeDecoder subs priority)
  then show "decode d tbl cb = Inr out \<Longrightarrow> ?thesis"
    by (auto split: option.splits sum.splits simp: merge_records_id spot_records_id)
qed

lemma decode_valid_options: "decode d tbl cb = Inr out \<Longrightarrow> valid_options d"
  by (cases d) (auto simp: contract_violation_def split: if_splits option.splits)

lemma contract_kept:
  "valid_codebook cb \<Longrightarrow> valid_options d \<Longrightarrow> dimensions_agree tbl cb \<Longrightarrow>
     contract_violation d tbl cb = None"
  by (simp add: contract_violation_def)

lemma filter_distinct_key:
  "distinct (map f xs) \<Longrightarrow> p < length xs \<Longrightarrow> filter (\<lambda>x. f x = f (xs ! p)) xs = [xs ! p]"
proof (induction xs arbitrary: p)
  case Nil
  then show ?case by simp
next
  case (Cons x xs)
  show ?case
  proof (cases p)
    case 0
    have "filter (\<lambda>y. f y = f x) xs = []"
      using Cons.prems(1) by (force simp: filter_empty_conv image_iff)
    with 0 show ?thesis by simp
  next
    case (Suc q)
    with Cons.prems have q: "q < length xs" and d: "distinct (map f xs)" by simp_all
    have "f x \<noteq> f (xs ! q)"
      using Cons.prems(1) q by (force simp: image_iff)
    with Suc Cons.IH [OF d q] show ?thesis by simp
  qed
qed

lemma demo_valid:
  "valid_codebook (demo_codebook a b)"
  "dimensions_agree demo_table (demo_codebook a b)"
  by (simp_all add: valid_codebook_def demo_codebook_def dimensions_agree_def demo_table_def)

text \<open>
  Claim C2. Whenever a decoder of the family produces a Decoded Table, the table holds the
  spot identifiers of the input table, in the same order; so when the input identifiers
  are distinct, the output identifiers are distinct and every input spot has exactly one
  record.
\<close>

theorem decode_coverage:
  assumes "decode d tbl cb = Inr out"
  shows "map d_spot out = map spot_id (it_spots tbl) \<and>
         (distinct (map spot_id (it_spots tbl)) \<longrightarrow>
            distinct (map d_spot out) \<and>
            (\<forall>s \<in> set (it_spots tbl). \<exists>r. filter (\<lambda>r. d_spot r = spot_id s) out = [r]))"
proof -
  have ids: "map d_spot out = map spot_id (it_spots tbl)"
    using assms by (rule decode_spot_ids)
  have one: "\<exists>r. filter (\<lambda>r. d_spot r = spot_id s) out = [r]"
    if dist: "distinct (map spot_id (it_spots tbl))" and s: "s \<in> set (it_spots tbl)" for s
  proof -
    from s obtain p where p: "p < length (it_spots tbl)" "it_spots tbl ! p = s"
      by (auto simp: in_set_conv_nth)
    from ids have len: "length out = length (it_spots tbl)"
      by (metis length_map)
    have "d_spot (out ! p) = spot_id s"
      using ids p len by (metis nth_map)
    moreover have "filter (\<lambda>r. d_spot r = d_spot (out ! p)) out = [out ! p]"
      using dist ids p(1) len by (intro filter_distinct_key) simp_all
    ultimately show ?thesis by auto
  qed
  from ids one show ?thesis by simp
qed

theorem decode_coverage_witness:
  "map d_spot (projr (decode (PerRoundMaxChannel None) demo_table (demo_codebook ''A'' ''B'')))
     = [7, 8]"
proof -
  have "contract_violation (PerRoundMaxChannel None) demo_table (demo_codebook ''A'' ''B'') = None"
    by (simp add: contract_kept demo_valid)
  then have dec: "decode (PerRoundMaxChannel None) demo_table (demo_codebook ''A'' ''B'') =
    Inr (map (per_round_max_spot None (demo_codebook ''A'' ''B'')) (it_spots demo_table))"
    by simp
  from decode_coverage [OF dec]
  have "map d_spot (map (per_round_max_spot None (demo_codebook ''A'' ''B''))
          (it_spots demo_table)) = map spot_id (it_spots demo_table)"
    by (rule conjunct1)
  then show ?thesis
    unfolding dec by (simp add: demo_table_def)
qed

section \<open>Properties of MultiBarcodeDecoder\<close>

lemma collect_tables_Inr:
  "collect_tables (map f xs) = Inr ys \<Longrightarrow>
     length ys = length xs \<and> (\<forall>i < length xs. f (xs ! i) = Inr (ys ! i))"
proof (induction xs arbitrary: ys)
  case Nil
  then show ?case by simp
next
  case (Cons x xs)
  from Cons.prems obtain y ys' where
    y: "f x = Inr y" "collect_tables (map f xs) = Inr ys'" "ys = y # ys'"
    by (cases "f x") (auto split: sum.splits)
  from Cons.IH [OF y(2)] y(1,3) show ?case
    by (auto simp: nth_Cons split: nat.splits)
qed

lemma collect_tables_intro:
  "length ys = length xs \<Longrightarrow> \<forall>i < length xs. f (xs ! i) = Inr (ys ! i) \<Longrightarrow>
     collect_tables (map f xs) = Inr ys"
proof (induction xs arbitrary: ys)
  case Nil
  then show ?case by simp
next
  case (Cons x xs)
  from Cons.prems(1) obtain y ys' where ys: "ys = y # ys'" "length ys' = length xs"
    by (cases ys) simp_all
  from Cons.prems(2) ys have "f x = Inr y" by auto
  moreover from Cons.prems(2) ys have "\<forall>i < length xs. f (xs ! i) = Inr (ys' ! i)" by auto
  ultimately show ?case using Cons.IH [OF ys(2)] ys by simp
qed

lemma two_identities:
  assumes "x \<in> set xs" and "y \<in> set xs" and "x \<noteq> y"
  shows "\<exists>u v ws. remdups xs = u # v # ws"
proof (cases "remdups xs")
  case Nil
  with assms(1) show ?thesis by (metis empty_iff empty_set set_remdups)
next
  case (Cons u us)
  show ?thesis
  proof (cases us)
    case Nil
    with Cons have "set xs = {u}" by (metis empty_set list.simps(15) set_remdups)
    with assms show ?thesis by auto
  next
    case several: (Cons v ws)
    with Cons show ?thesis by simp
  qed
qed

lemma merge_uncalled:
  assumes "\<forall>r \<in> set recs. \<not> is_called (d_call r)"
  shows "\<not> is_called (d_call (merge_records priority sid recs))"
proof -
  have "filter (\<lambda>r. is_called (d_call r)) recs = []"
    using assms by (simp add: filter_empty_conv)
  then show ?thesis
    using assms by (cases recs) (simp_all add: merge_records_def)
qed

lemma merge_conflict:
  assumes "i < length recs" and "j < length recs"
    and "d_call (recs ! i) = Called a" and "d_call (recs ! j) = Called b" and "a \<noteq> b"
  shows "d_call (merge_records None sid recs) = NoCall Conflict"
proof -
  let ?called = "filter (\<lambda>r. is_called (d_call r)) recs"
  have "recs ! i \<in> set ?called" "recs ! j \<in> set ?called"
    using assms by simp_all
  then have "Called a \<in> set (map d_call ?called)" "Called b \<in> set (map d_call ?called)"
    using assms(3,4) by (metis image_eqI set_map)+
  with assms(5) obtain u v ws where "remdups (map d_call ?called) = u # v # ws"
    using two_identities [of "Called a" "map d_call ?called" "Called b"] by auto
  then show ?thesis
    by (simp add: merge_records_def)
qed

lemma merge_priority:
  assumes "order = pre @ k # post"
    and "\<forall>i \<in> set pre. \<not> (i < length recs \<and> is_called (d_call (recs ! i)))"
    and "k < length recs" and "is_called (d_call (recs ! k))"
  shows "d_call (merge_records (Some order) sid recs) = d_call (recs ! k)"
proof -
  let ?called = "filter (\<lambda>r. is_called (d_call r)) recs"
  let ?P = "\<lambda>i. i < length recs \<and> is_called (d_call (recs ! i))"
  have k: "recs ! k \<in> set ?called"
    using assms(3,4) by simp
  have first: "filter ?P order = k # filter ?P post"
    using assms by (simp add: filter_empty_conv)
  show ?thesis
  proof (cases "remdups (map d_call ?called)")
    case Nil
    with k show ?thesis
      by (metis empty_iff empty_set set_remdups set_map image_is_empty)
  next
    case (Cons c cs)
    show ?thesis
    proof (cases cs)
      case Nil
      with Cons have all: "set (map d_call ?called) = {c}"
        by (metis empty_set list.simps(15) set_remdups)
      from k have "?called \<noteq> []" by (metis empty_iff empty_set)
      then have "hd ?called \<in> set ?called" by (rule hd_in_set)
      then have "d_call (hd ?called) \<in> set (map d_call ?called)"
        by (metis image_eqI set_map)
      moreover from k have "d_call (recs ! k) \<in> set (map d_call ?called)"
        by (metis image_eqI set_map)
      ultimately have "d_call (hd ?called) = d_call (recs ! k)"
        using all by simp
      with Cons Nil show ?thesis by (simp add: merge_records_def)
    next
      case several: (Cons c' cs')
      with Cons first show ?thesis
        by (simp add: merge_records_def)
    qed
  qed
qed

lemma spot_records_nth:
  assumes "\<forall>t \<in> set tables. map d_spot t = map spot_id spots"
    and "distinct (map spot_id spots)" and "p < length spots"
  shows "spot_records tables (spot_id (spots ! p)) = map (\<lambda>t. t ! p) tables"
proof -
  have "filter (\<lambda>r. d_spot r = spot_id (spots ! p)) t = [t ! p]" if "t \<in> set tables" for t
  proof -
    from that assms(1) have ids: "map d_spot t = map spot_id spots" by blast
    then have len: "length t = length spots" by (metis length_map)
    have "d_spot (t ! p) = spot_id (spots ! p)"
      using ids assms(3) len by (metis nth_map)
    moreover have "filter (\<lambda>r. d_spot r = d_spot (t ! p)) t = [t ! p]"
      using assms(2,3) ids len by (intro filter_distinct_key) simp_all
    ultimately show ?thesis by simp
  qed
  then have "map (filter (\<lambda>r. d_spot r = spot_id (spots ! p))) tables =
             map (\<lambda>t. [t ! p]) tables"
    by simp
  then show ?thesis
    by (simp add: spot_records_def) (induction tables, simp_all)
qed

lemma multi_record:
  assumes dec: "decode (MultiBarcodeDecoder subs priority) tbl cb = Inr out"
    and ids: "distinct (map spot_id (it_spots tbl))"
    and p: "p < length (it_spots tbl)"
  shows "\<exists>tables. collect_tables (map (\<lambda>sub. decode (fst sub) tbl (snd sub)) subs) = Inr tables \<and>
           out ! p = merge_records priority (spot_id (it_spots tbl ! p))
                       (map (\<lambda>t. t ! p) tables)"
proof -
  from dec obtain tables where
    seq: "collect_tables (map (\<lambda>sub. decode (fst sub) tbl (snd sub)) subs) = Inr tables"
    and out: "out = map (\<lambda>s. merge_records priority (spot_id s)
                                (spot_records tables (spot_id s))) (it_spots tbl)"
    by (auto split: option.splits sum.splits)
  from collect_tables_Inr [OF seq]
  have len: "length tables = length subs"
    and each: "\<forall>i < length subs. decode (fst (subs ! i)) tbl (snd (subs ! i)) = Inr (tables ! i)"
    by simp_all
  have "map d_spot t = map spot_id (it_spots tbl)" if "t \<in> set tables" for t
  proof -
    from that obtain i where "i < length tables" "tables ! i = t"
      by (auto simp: in_set_conv_nth)
    with len each have "decode (fst (subs ! i)) tbl (snd (subs ! i)) = Inr t" by simp
    then show ?thesis by (rule decode_spot_ids)
  qed
  then have "spot_records tables (spot_id (it_spots tbl ! p)) = map (\<lambda>t. t ! p) tables"
    using ids p by (intro spot_records_nth) simp_all
  with out p seq show ?thesis by simp
qed

text \<open>
  Claim C3. Let \<open>tables ! i\<close> be the table sub-decoder \<open>i\<close> produces on its own, and
  \<open>p\<close> the position of a spot. If two sub-decoders call the spot to different identities
  and no priority order is configured, the merged call is "no call, conflict". If a
  priority order is configured, the merged call is that of the first sub-decoder of the
  order that called the spot. If no sub-decoder calls the spot, the merged record is a
  "no call".
\<close>

theorem multi_barcode_merge_policy:
  assumes dec: "decode (MultiBarcodeDecoder subs priority) tbl cb = Inr out"
    and ids: "distinct (map spot_id (it_spots tbl))"
    and p: "p < length (it_spots tbl)"
    and len: "length tables = length subs"
    and each: "\<forall>i < length subs. decode (fst (subs ! i)) tbl (snd (subs ! i)) = Inr (tables ! i)"
  shows "(priority = None \<and> i < length subs \<and> j < length subs \<and>
          d_call (tables ! i ! p) = Called a \<and> d_call (tables ! j ! p) = Called b \<and> a \<noteq> b
            \<longrightarrow> d_call (out ! p) = NoCall Conflict) \<and>
         (priority = Some (pre @ k # post) \<and>
          (\<forall>i \<in> set pre. \<not> is_called (d_call (tables ! i ! p))) \<and>
          is_called (d_call (tables ! k ! p))
            \<longrightarrow> d_call (out ! p) = d_call (tables ! k ! p)) \<and>
         ((\<forall>i < length subs. \<not> is_called (d_call (tables ! i ! p)))
            \<longrightarrow> \<not> is_called (d_call (out ! p)))"
proof -
  let ?sid = "spot_id (it_spots tbl ! p)"
  let ?recs = "map (\<lambda>t. t ! p) tables"
  have "collect_tables (map (\<lambda>sub. decode (fst sub) tbl (snd sub)) subs) = Inr tables"
    using len each by (rule collect_tables_intro)
  with multi_record [OF dec ids p]
  have out: "out ! p = merge_records priority ?sid ?recs" by auto
  have conflict: "d_call (out ! p) = NoCall Conflict"
    if "priority = None" "i < length subs" "j < length subs"
      "d_call (tables ! i ! p) = Called a" "d_call (tables ! j ! p) = Called b" "a \<noteq> b"
    using that len out merge_conflict [of i ?recs j a b ?sid] by simp
  have prio: "d_call (out ! p) = d_call (tables ! k ! p)"
    if pr: "priority = Some (pre @ k # post)"
      and un: "\<forall>i \<in> set pre. \<not> is_called (d_call (tables ! i ! p))"
      and ca: "is_called (d_call (tables ! k ! p))"
  proof -
    from decode_valid_options [OF dec] pr have "set (pre @ k # post) = {0..<length subs}"
      by simp
    then have k: "k < length tables" using len by auto
    have "\<forall>i \<in> set pre. \<not> (i < length ?recs \<and> is_called (d_call (?recs ! i)))"
      using un by simp
    moreover have "k < length ?recs" "is_called (d_call (?recs ! k))"
      using k ca by simp_all
    ultimately
    have "d_call (merge_records (Some (pre @ k # post)) ?sid ?recs) = d_call (?recs ! k)"
      by (intro merge_priority) simp_all
    with out pr k show ?thesis by simp
  qed
  have uncalled: "\<not> is_called (d_call (out ! p))"
    if "\<forall>i < length subs. \<not> is_called (d_call (tables ! i ! p))"
  proof -
    have "\<forall>r \<in> set ?recs. \<not> is_called (d_call r)"
      using that len by (auto simp: in_set_conv_nth)
    from merge_uncalled [OF this] out show ?thesis by simp
  qed
  from conflict prio uncalled show ?thesis by blast
qed

lemma demo_tables:
  "decode (PerRoundMaxChannel None) demo_table (demo_codebook ''A'' ''B'') =
     Inr [\<lparr>d_spot = 7, d_call = Called ''A'', d_distance = None, d_quality = None\<rparr>,
          \<lparr>d_spot = 8, d_call = Called ''A'', d_distance = None, d_quality = None\<rparr>]"
  "decode (SimpleLookupDecoder (1/2)) demo_table (demo_codebook ''C'' ''B'') =
     Inr [\<lparr>d_spot = 7, d_call = Called ''C'', d_distance = None, d_quality = None\<rparr>,
          \<lparr>d_spot = 8, d_call = Called ''C'', d_distance = None, d_quality = None\<rparr>]"
  by (simp_all add: contract_violation_def valid_codebook_def dimensions_agree_def
      demo_table_def demo_codebook_def per_round_max_spot_def simple_lookup_spot_def
      active_channels_def lookup_barcode_def Let_def)

lemma demo_collected:
  "collect_tables (map (\<lambda>sub. decode (fst sub) demo_table (snd sub)) demo_subs) =
     Inr [[\<lparr>d_spot = 7, d_call = Called ''A'', d_distance = None, d_quality = None\<rparr>,
           \<lparr>d_spot = 8, d_call = Called ''A'', d_distance = None, d_quality = None\<rparr>],
          [\<lparr>d_spot = 7, d_call = Called ''C'', d_distance = None, d_quality = None\<rparr>,
           \<lparr>d_spot = 8, d_call = Called ''C'', d_distance = None, d_quality = None\<rparr>]]"
  by (simp add: demo_subs_def demo_tables del: decode.simps)

lemma demo_options:
  "valid_options (MultiBarcodeDecoder demo_subs None)"
  "valid_options (MultiBarcodeDecoder demo_subs (Some [1, 0]))"
  by (auto simp: demo_subs_def)

lemma demo_multi:
  "decode (MultiBarcodeDecoder demo_subs None) demo_table (demo_codebook ''A'' ''B'') =
     Inr [\<lparr>d_spot = 7, d_call = NoCall Conflict, d_distance = None, d_quality = None\<rparr>,
          \<lparr>d_spot = 8, d_call = NoCall Conflict, d_distance = None, d_quality = None\<rparr>]"
  "decode (MultiBarcodeDecoder demo_subs (Some [1, 0])) demo_table (demo_codebook ''A'' ''B'') =
     Inr [\<lparr>d_spot = 7, d_call = Called ''C'', d_distance = None, d_quality = None\<rparr>,
          \<lparr>d_spot = 8, d_call = Called ''C'', d_distance = None, d_quality = None\<rparr>]"
  unfolding decode.simps(5) demo_collected sum.case option.case
    contract_kept [OF demo_valid(1) demo_options(1) demo_valid(2)]
    contract_kept [OF demo_valid(1) demo_options(2) demo_valid(2)]
  by (simp_all add: spot_records_def merge_records_def demo_table_def)

theorem multi_barcode_merge_policy_witness:
  "d_call (projr (decode (MultiBarcodeDecoder demo_subs None) demo_table
                    (demo_codebook ''A'' ''B'')) ! 0) = NoCall Conflict \<and>
   d_call (projr (decode (MultiBarcodeDecoder demo_subs (Some [1, 0])) demo_table
                    (demo_codebook ''A'' ''B'')) ! 0) = Called ''C''"
proof -
  let ?t0 = "[\<lparr>d_spot = 7, d_call = Called ''A'', d_distance = None, d_quality = None\<rparr>,
              \<lparr>d_spot = 8, d_call = Called ''A'', d_distance = None, d_quality = None\<rparr>]"
  let ?t1 = "[\<lparr>d_spot = 7, d_call = Called ''C'', d_distance = None, d_quality = None\<rparr>,
              \<lparr>d_spot = 8, d_call = Called ''C'', d_distance = None, d_quality = None\<rparr>]"
  have ids: "distinct (map spot_id (it_spots demo_table))"
    and p: "0 < length (it_spots demo_table)"
    by (simp_all add: demo_table_def)
  have len: "length [?t0, ?t1] = length demo_subs"
    by (simp add: demo_subs_def)
  have each: "\<forall>i < length demo_subs.
      decode (fst (demo_subs ! i)) demo_table (snd (demo_subs ! i)) = Inr ([?t0, ?t1] ! i)"
    using demo_tables by (simp add: demo_subs_def less_Suc_eq del: decode.simps)
  have differ: "''A'' \<noteq> ''C''" by simp
  from multi_barcode_merge_policy [OF demo_multi(1) ids p len each,
      where i = 0 and j = 1 and a = "''A''" and b = "''C''"]
  have "d_call ([\<lparr>d_spot = 7, d_call = NoCall Conflict, d_distance = None, d_quality = None\<rparr>,
                 \<lparr>d_spot = 8, d_call = NoCall Conflict, d_distance = None, d_quality = None\<rparr>] ! 0)
          = NoCall Conflict"
    by simp
  moreover
  from multi_barcode_merge_policy [OF demo_multi(2) ids p len each,
      where pre = "[]" and k = 1 and post = "[0]"]
  have "d_call ([\<lparr>d_spot = 7, d_call = Called ''C'', d_distance = None, d_quality = None\<rparr>,
                 \<lparr>d_spot = 8, d_call = Called ''C'', d_distance = None, d_quality = None\<rparr>] ! 0)
          = Called ''C''"
    by simp
  ultimately show ?thesis
    unfolding demo_multi by simp
qed

section \<open>Properties of MetricDistance\<close>

lemma length_one_hot: "length (one_hot n c) = n"
  by (simp add: one_hot_def)

lemma one_hot_inj:
  assumes "c < n" and "one_hot n c = one_hot n c'"
  shows "c = c'"
proof -
  have "one_hot n c ! c = 1" using assms(1) by (simp add: one_hot_def)
  moreover have "one_hot n c' ! c = (if c = c' then 1 else 0)"
    using assms(1) by (simp add: one_hot_def)
  ultimately show ?thesis using assms(2) by (simp split: if_splits)
qed

lemma length_barcode_vector: "length (barcode_vector n b) = length b * n"
  by (induction b) (simp_all add: barcode_vector_def length_one_hot)

lemma barcode_vector_inj:
  assumes "length b = length b'" and "\<forall>c \<in> set b. c < n"
    and "barcode_vector n b = barcode_vector n b'"
  shows "b = b'"
  using assms
proof (induction b b' rule: list_induct2)
  case Nil
  then show ?case by simp
next
  case (Cons c cs c' cs')
  from Cons.prems(2)
  have "one_hot n c @ barcode_vector n cs = one_hot n c' @ barcode_vector n cs'"
    by (simp add: barcode_vector_def)
  then have "one_hot n c = one_hot n c'" and rest: "barcode_vector n cs = barcode_vector n cs'"
    by (simp_all add: length_one_hot)
  moreover from Cons.prems(1) have "c < n" by simp
  ultimately have "c = c'" by (intro one_hot_inj)
  moreover from Cons.IH Cons.prems(1) rest have "cs = cs'" by simp
  ultimately show ?case by simp
qed

lemma unique_entry:
  "distinct (map snd es) \<Longrightarrow> (t, b) \<in> set es \<Longrightarrow> filter (\<lambda>e. snd e = b) es = [(t, b)]"
proof (induction es)
  case Nil
  then show ?case by simp
next
  case (Cons e es)
  show ?case
  proof (cases "e = (t, b)")
    case True
    with Cons.prems(1) have "filter (\<lambda>e. snd e = b) es = []"
      by (force simp: filter_empty_conv image_iff)
    with True show ?thesis by simp
  next
    case False
    with Cons.prems have mem: "(t, b) \<in> set es" and d: "distinct (map snd es)" by simp_all
    with Cons.prems(1) have "snd e \<noteq> b" by (force simp: image_iff)
    with Cons.IH [OF d mem] show ?thesis by simp
  qed
qed

lemma metric_distance_spot_exact:
  assumes cb: "valid_codebook cb" and dm: "distance_metric (metric opts)"
    and thr: "0 < threshold opts" and e: "(t, b) \<in> set (cb_entries cb)"
    and v: "normalize opts (intensities s) = barcode_vector (cb_channels cb) b"
  shows "metric_distance_spot opts cb s =
           \<lparr>d_spot = spot_id s, d_call = Called t, d_distance = Some 0, d_quality = Some 1\<rparr>"
proof -
  let ?n = "cb_channels cb"
  let ?v = "barcode_vector ?n b"
  let ?dist = "\<lambda>e. metric opts ?v (barcode_vector ?n (snd e))"
  let ?ds = "map (\<lambda>e. (fst e, ?dist e)) (cb_entries cb)"
  have wf: "length b' = cb_rounds cb \<and> (\<forall>c \<in> set b'. c < ?n)"
    if "b' \<in> set (map snd (cb_entries cb))" for b'
    using cb that by (auto simp: valid_codebook_def)
  have b: "length b = cb_rounds cb" "\<forall>c \<in> set b. c < ?n"
    using wf [of b] e by force+
  have len: "length ?v = length (barcode_vector ?n (snd e'))"
    if "e' \<in> set (cb_entries cb)" for e'
    using wf [of "snd e'"] that b(1) by (simp add: length_barcode_vector)
  have nonneg: "0 \<le> ?dist e'" if "e' \<in> set (cb_entries cb)" for e'
    using dm len [OF that] by (simp add: distance_metric_def)
  have zero: "?dist e' = 0 \<longleftrightarrow> snd e' = b" if "e' \<in> set (cb_entries cb)" for e'
  proof -
    have "?dist e' = 0 \<longleftrightarrow> ?v = barcode_vector ?n (snd e')"
      using dm len [OF that] by (simp add: distance_metric_def)
    also have "\<dots> \<longleftrightarrow> snd e' = b"
      using barcode_vector_inj [of b "snd e'" ?n] wf [of "snd e'"] that b by auto
    finally show ?thesis .
  qed
  have ne: "?ds \<noteq> []" using e by auto
  have m: "Min (set (map snd ?ds)) = 0"
  proof (rule Min_eqI)
    show "finite (set (map snd ?ds))" by simp
    show "0 \<le> y" if "y \<in> set (map snd ?ds)" for y
      using that nonneg by auto
    have "?dist (t, b) = 0" using zero [OF e] by simp
    then show "0 \<in> set (map snd ?ds)" using e by force
  qed
  have f: "filter (\<lambda>e. snd e = 0) ?ds = [(t, 0)]"
  proof -
    have "filter (\<lambda>e. snd e = 0) ?ds =
          map (\<lambda>e. (fst e, ?dist e)) (filter (\<lambda>e. ?dist e = 0) (cb_entries cb))"
      by (simp add: filter_map comp_def)
    also have "filter (\<lambda>e. ?dist e = 0) (cb_entries cb) =
               filter (\<lambda>e. snd e = b) (cb_entries cb)"
      by (rule filter_cong) (simp_all add: zero)
    also have "\<dots> = [(t, b)]"
      using cb e by (intro unique_entry) (simp_all add: valid_codebook_def)
    finally show ?thesis using zero [OF e] by simp
  qed
  show ?thesis
    unfolding metric_distance_spot_def v Let_def m f
    using ne thr by (simp add: clamp01_def)
qed

lemma manhattan_metric: "distance_metric manhattan"
  unfolding distance_metric_def
proof (intro allI impI)
  fix x y :: "real list"
  assume "length x = length y"
  then show "0 \<le> manhattan x y \<and> (manhattan x y = 0 \<longleftrightarrow> x = y) \<and>
             manhattan x y = manhattan y x"
  proof (induction x y rule: list_induct2)
    case Nil
    then show ?case by (simp add: manhattan_def)
  next
    case (Cons a as b bs)
    then show ?case by (auto simp: manhattan_def abs_minus_commute)
  qed
qed

text \<open>
  Claim C5. With a valid codebook, a table of matching dimensions, a distance metric and
  any threshold above 0: if the normalized intensity vector of a spot equals the vector
  representation of the barcode of a codebook entry, the distance to that entry is 0,
  MetricDistance produces a table, and the record of the spot in it is called as the
  target of that entry, with distance 0.
\<close>

theorem metric_distance_exact_match:
  assumes "valid_codebook cb" and "dimensions_agree tbl cb"
    and "distance_metric (metric opts)" and "0 < threshold opts"
    and "p < length (it_spots tbl)" and "(t, b) \<in> set (cb_entries cb)"
    and "normalize opts (intensities (it_spots tbl ! p)) = barcode_vector (cb_channels cb) b"
  shows "metric opts (normalize opts (intensities (it_spots tbl ! p)))
           (barcode_vector (cb_channels cb) b) = 0 \<and>
         (\<exists>out. decode (MetricDistance opts) tbl cb = Inr out \<and>
                d_call (out ! p) = Called t \<and> d_distance (out ! p) = Some 0)"
proof -
  have "metric opts (barcode_vector (cb_channels cb) b) (barcode_vector (cb_channels cb) b) = 0"
    using assms(3) by (simp add: distance_metric_def)
  moreover have "decode (MetricDistance opts) tbl cb =
      Inr (map (metric_distance_spot opts cb) (it_spots tbl))"
    using assms(1,2,4) by (simp add: contract_kept)
  moreover have "map (metric_distance_spot opts cb) (it_spots tbl) ! p =
      \<lparr>d_spot = spot_id (it_spots tbl ! p), d_call = Called t, d_distance = Some 0,
       d_quality = Some 1\<rparr>"
    using assms(5) metric_distance_spot_exact [OF assms(1,3,4,6,7)] by simp
  ultimately show ?thesis
    using assms(7) by simp
qed

theorem metric_distance_exact_match_witness:
  "d_call (projr (decode (MetricDistance
                     \<lparr>metric = manhattan, normalize = norm_none, threshold = 1/2\<rparr>)
                   demo_table (demo_codebook ''A'' ''B'')) ! 1) = Called ''A'' \<and>
   d_distance (projr (decode (MetricDistance
                     \<lparr>metric = manhattan, normalize = norm_none, threshold = 1/2\<rparr>)
                   demo_table (demo_codebook ''A'' ''B'')) ! 1) = Some 0"
proof -
  let ?opts = "\<lparr>metric = manhattan, normalize = norm_none, threshold = 1/2\<rparr>"
  have m: "distance_metric (metric ?opts)"
    by (simp add: manhattan_metric)
  have thr: "0 < threshold ?opts"
    by simp
  have p: "1 < length (it_spots demo_table)"
    by (simp add: demo_table_def)
  have e: "(''A'', [0, 1]) \<in> set (cb_entries (demo_codebook ''A'' ''B''))"
    by (simp add: demo_codebook_def)
  have v: "normalize ?opts (intensities (it_spots demo_table ! 1)) =
           barcode_vector (cb_channels (demo_codebook ''A'' ''B'')) [0, 1]"
    by (simp add: norm_none_def demo_table_def demo_codebook_def barcode_vector_def
        one_hot_def upt_rec)
  from metric_distance_exact_match [OF demo_valid(1) demo_valid(2) m thr p e v]
  obtain out where "decode (MetricDistance ?opts) demo_table (demo_codebook ''A'' ''B'') = Inr out"
    and "d_call (out ! 1) = Called ''A''" and "d_distance (out ! 1) = Some 0"
    by blast
  then show ?thesis
    by (simp del: decode.simps)
qed

end
